theory Spec2Isabelle
  imports Complex_Main
begin

section \<open>tipg.database: connection initialisation and pool lifecycle\<close>

text \<open>
  The module \<^verbatim>\<open>src/tipg/database.py\<close> holds a callable class \<^verbatim>\<open>connection_factory\<close>
  (run by the pool on every new physical connection) and the two lifecycle functions
  \<^verbatim>\<open>connect_to_db\<close> and \<^verbatim>\<open>close_db_connection\<close>. Everything the code does to the
  outside world goes through three capabilities that are not part of the module: a database
  connection (\<^verbatim>\<open>set_type_codec\<close>, \<^verbatim>\<open>execute\<close>), the file system (\<^verbatim>\<open>read_text\<close>) and
  the pool primitive (\<^verbatim>\<open>create_pool_b\<close>, \<^verbatim>\<open>close\<close>). Each is modelled as explicit state
  with a record of what was done on it, and each call that can raise returns a sum whose
  left injection is the exception.
\<close>

subsection \<open>Connections, files and errors\<close>

type_synonym path = string

text \<open>The two functions of \<^verbatim>\<open>orjson\<close> that the module hands to the driver.\<close>

datatype codec_fn = Orjson_dumps | Orjson_loads

text \<open>
  A call on a connection: \<^verbatim>\<open>set_type_codec(typename, encoder=, decoder=, schema=)\<close> or
  \<^verbatim>\<open>execute(sql)\<close>.
\<close>

datatype conn_call =
    Set_type_codec string codec_fn codec_fn string
  | Execute string

datatype error =
    PostgresError conn_call
  | OSError path
  | PoolOpenError string
  | AttributeError string

text \<open>
  A connection records the calls that completed on it, oldest first. Whether the server
  rejects the next call is decided by \<open>refuses\<close>, from the calls completed so far and the
  call itself: any behaviour of a server on one connection is such a function. A rejected
  call raises and leaves no trace.
\<close>

record connection =
  executed :: "conn_call list"
  refuses :: "conn_call list \<Rightarrow> conn_call \<Rightarrow> bool"

definition conn_send :: "connection \<Rightarrow> conn_call \<Rightarrow> (error + unit) \<times> connection" where
  "conn_send conn c =
     (if refuses conn (executed conn) c then (Inl (PostgresError c), conn)
      else (Inr (), conn\<lparr>executed := executed conn @ [c]\<rparr>))"

definition set_type_codec ::
  "connection \<Rightarrow> string \<Rightarrow> codec_fn \<Rightarrow> codec_fn \<Rightarrow> string \<Rightarrow> (error + unit) \<times> connection" where
  "set_type_codec conn typename encoder decoder schema =
     conn_send conn (Set_type_codec typename encoder decoder schema)"

definition execute :: "connection \<Rightarrow> string \<Rightarrow> (error + unit) \<times> connection" where
  "execute conn sql = conn_send conn (Execute sql)"

text \<open>The file system maps a path to the text of the file; a path it does not map cannot be read.\<close>

type_synonym filesystem = "path \<rightharpoonup> string"

definition read_text :: "filesystem \<Rightarrow> path \<Rightarrow> error + string" where
  "read_text fs p = (case fs p of None \<Rightarrow> Inl (OSError p) | Some t \<Rightarrow> Inr t)"

text \<open>
  \<^verbatim>\<open>DB_CATALOG_FILE = resources_files(__package__) / "sql" / "dbcatalog.sql"\<close>: the bundled
  catalog script, named relative to the package.
\<close>

definition DB_CATALOG_FILE :: path where
  "DB_CATALOG_FILE = ''tipg/sql/dbcatalog.sql''"

subsection \<open>The connection factory\<close>

record connection_factory =
  schemas :: "string list"
  user_sql_files :: "path list"

text \<open>\<^verbatim>\<open>__init__\<close>: \<^verbatim>\<open>schemas or []\<close> and \<^verbatim>\<open>user_sql_files or []\<close>.\<close>

definition connection_factory_init ::
  "string list option \<Rightarrow> path list option \<Rightarrow> connection_factory" where
  "connection_factory_init schemas_arg user_sql_files_arg =
     \<lparr>schemas = (case schemas_arg of None \<Rightarrow> [] | Some xs \<Rightarrow> xs),
      user_sql_files = (case user_sql_files_arg of None \<Rightarrow> [] | Some ps \<Rightarrow> ps)\<rparr>"

text \<open>\<^verbatim>\<open>sep.join(xs)\<close> of Python.\<close>

fun join_str :: "string \<Rightarrow> string list \<Rightarrow> string" where
  "join_str sep [] = []"
| "join_str sep [x] = x"
| "join_str sep (x # y # ys) = x @ sep @ join_str sep (y # ys)"

text \<open>
  The f-string of lines 52 to 58, cut at the replacement field: \<open>search_path_sql_open\<close> runs
  from the opening triple quote through the quote that opens the SQL literal,
  \<open>search_path_sql_close\<close> from the blank after the closing quote of the SQL literal to the
  closing triple quote.
\<close>

definition search_path_sql_open :: string where
  "search_path_sql_open =
     ''\<newline>            SELECT set_config(\<newline>                'search_path',\<newline>                ''
     @ [CHR 0x27]"

definition search_path_sql_close :: string where
  "search_path_sql_close =
     '' || current_setting('search_path', false),\<newline>                false\<newline>                );\<newline>            ''"

definition search_path_sql :: "string \<Rightarrow> string" where
  "search_path_sql schemas_str =
     search_path_sql_open @ schemas_str @ '','' @ [CHR 0x27] @ search_path_sql_close"

text \<open>
  The loop \<^verbatim>\<open>for sqlfile in self.user_sql_files: await conn.execute(sqlfile.read_text())\<close>.
  The file is read when its turn comes, so a file that cannot be read stops the loop after
  the files before it have been executed.
\<close>

fun execute_user_sql_files ::
  "filesystem \<Rightarrow> path list \<Rightarrow> connection \<Rightarrow> (error + unit) \<times> connection" where
  "execute_user_sql_files fs [] conn = (Inr (), conn)"
| "execute_user_sql_files fs (sqlfile # rest) conn =
     (case read_text fs sqlfile of
        Inl e \<Rightarrow> (Inl e, conn)
      | Inr sql \<Rightarrow>
          (case execute conn sql of
             (Inl e, conn') \<Rightarrow> (Inl e, conn')
           | (Inr _, conn') \<Rightarrow> execute_user_sql_files fs rest conn'))"

text \<open>
  \<^verbatim>\<open>connection_factory.__call__(self, conn)\<close>. The object \<open>self\<close> is passed through and
  returned, so that a caller who runs the factory twice hands the second run what the first
  one left. The \<^verbatim>\<open>logger.debug\<close> line writes to the log only and is not modelled.
\<close>

definition connection_factory_call ::
  "connection_factory \<Rightarrow> filesystem \<Rightarrow> connection
     \<Rightarrow> (error + unit) \<times> connection_factory \<times> connection" where
  "connection_factory_call self fs conn =
     (case set_type_codec conn ''json'' Orjson_dumps Orjson_loads ''pg_catalog'' of
        (Inl e, c1) \<Rightarrow> (Inl e, self, c1)
      | (Inr _, c1) \<Rightarrow>
     (case set_type_codec c1 ''jsonb'' Orjson_dumps Orjson_loads ''pg_catalog'' of
        (Inl e, c2) \<Rightarrow> (Inl e, self, c2)
      | (Inr _, c2) \<Rightarrow>
     (let schemas_str = join_str '','' (''pg_temp'' # schemas self) in
      case execute c2 (search_path_sql schemas_str) of
        (Inl e, c3) \<Rightarrow> (Inl e, self, c3)
      | (Inr _, c3) \<Rightarrow>
     (case execute_user_sql_files fs (user_sql_files self) c3 of
        (Inl e, c4) \<Rightarrow> (Inl e, self, c4)
      | (Inr _, c4) \<Rightarrow>
     (case read_text fs DB_CATALOG_FILE of
        Inl e \<Rightarrow> (Inl e, self, c4)
      | Inr sql \<Rightarrow>
     (case execute c4 sql of
        (Inl e, c5) \<Rightarrow> (Inl e, self, c5)
      | (Inr _, c5) \<Rightarrow> (Inr (), self, c5)))))))"

subsection \<open>Pools and the application state\<close>

text \<open>
  \<^verbatim>\<open>PostgresSettings\<close> and \<^verbatim>\<open>MultiPostgresSettings\<close> are declared in \<^verbatim>\<open>tipg.settings\<close>;
  only the fields that this module reads are kept. \<open>database_url\<close> stands for
  \<^verbatim>\<open>str(settings.database_url)\<close>.
\<close>

record postgres_settings =
  database_url :: string
  db_min_conn_size :: int
  db_max_conn_size :: int
  db_max_queries :: int
  db_max_inactive_conn_lifetime :: real

record multi_postgres_settings =
  database_url_list :: "string list"

text \<open>The arguments of one call of \<^verbatim>\<open>asyncpg.create_pool_b\<close>.\<close>

record pool_request =
  dsn :: string
  min_size :: int
  max_size :: int
  max_queries :: int
  max_inactive_connection_lifetime :: real
  init :: connection_factory
  kwargs :: "(string \<times> string) list"

datatype pool_status = Pool_open | Pool_closed

text \<open>
  The pools that exist, in the order of their creation, each with the request that made it
  and whether it has been closed. A pool handle is the position of its pool in this list.
  \<open>create_fails\<close> decides, from the pools that exist and the request, whether a creation
  raises (an unreachable server, a connection whose initialisation fails, an argument the
  driver rejects).
\<close>

record pool_world =
  pools :: "(pool_request \<times> pool_status) list"
  create_fails :: "(pool_request \<times> pool_status) list \<Rightarrow> pool_request \<Rightarrow> bool"

definition create_pool_b :: "pool_world \<Rightarrow> pool_request \<Rightarrow> (error + nat) \<times> pool_world" where
  "create_pool_b w req =
     (if create_fails w (pools w) req then (Inl (PoolOpenError (dsn req)), w)
      else (Inr (length (pools w)), w\<lparr>pools := pools w @ [(req, Pool_open)]\<rparr>))"

definition pool_close :: "pool_world \<Rightarrow> nat \<Rightarrow> pool_world" where
  "pool_close w h =
     (if h < length (pools w)
      then w\<lparr>pools := (pools w)[h := (fst (pools w ! h), Pool_closed)]\<rparr>
      else w)"

text \<open>
  \<^verbatim>\<open>app.state\<close>: an attribute that was never assigned is \<open>None\<close>, and reading it raises
  \<^verbatim>\<open>AttributeError\<close>.
\<close>

record app_state =
  pool :: "nat option"
  pool_list :: "nat list option"

text \<open>
  The loop of lines 95 to 104 over \<^verbatim>\<open>multi_postgres_settings.database_url_list\<close>, with the
  local list \<^verbatim>\<open>pool_list\<close> as accumulator.
\<close>

fun create_secondary_pools ::
  "postgres_settings \<Rightarrow> connection_factory \<Rightarrow> (string \<times> string) list \<Rightarrow> string list
     \<Rightarrow> nat list \<Rightarrow> pool_world \<Rightarrow> (error + nat list) \<times> pool_world" where
  "create_secondary_pools settings con_init kw [] pool_list_acc w = (Inr pool_list_acc, w)"
| "create_secondary_pools settings con_init kw (url # rest) pool_list_acc w =
     (case create_pool_b w
             \<lparr>dsn = url,
              min_size = db_min_conn_size settings,
              max_size = db_max_conn_size settings,
              max_queries = db_max_queries settings,
              max_inactive_connection_lifetime = db_max_inactive_conn_lifetime settings,
              init = con_init,
              kwargs = kw\<rparr> of
        (Inl e, w') \<Rightarrow> (Inl e, w')
      | (Inr p, w') \<Rightarrow>
          create_secondary_pools settings con_init kw rest (pool_list_acc @ [p]) w')"

text \<open>
  \<^verbatim>\<open>connect_to_db(app, settings, multi_postgres_settings, schemas, user_sql_files, **kwargs)\<close>.
  \<open>default_settings\<close> is the value of \<^verbatim>\<open>PostgresSettings()\<close>, built from the environment
  by a class outside this module.
\<close>

definition connect_to_db ::
  "postgres_settings \<Rightarrow> app_state \<Rightarrow> postgres_settings option
     \<Rightarrow> multi_postgres_settings option \<Rightarrow> string list option \<Rightarrow> path list option
     \<Rightarrow> (string \<times> string) list \<Rightarrow> pool_world \<Rightarrow> (error + unit) \<times> app_state \<times> pool_world" where
  "connect_to_db default_settings app settings_arg multi_postgres_settings_arg
       schemas_arg user_sql_files_arg kw w =
     (let settings = (case settings_arg of None \<Rightarrow> default_settings | Some s \<Rightarrow> s);
          con_init = connection_factory_init schemas_arg user_sql_files_arg
      in case create_pool_b w
                \<lparr>dsn = database_url settings,
                 min_size = db_min_conn_size settings,
                 max_size = db_max_conn_size settings,
                 max_queries = db_max_queries settings,
                 max_inactive_connection_lifetime = db_max_inactive_conn_lifetime settings,
                 init = con_init,
                 kwargs = kw\<rparr> of
           (Inl e, w1) \<Rightarrow> (Inl e, app, w1)
         | (Inr p, w1) \<Rightarrow>
             (let app1 = app\<lparr>pool := Some p\<rparr> in
              case multi_postgres_settings_arg of
                None \<Rightarrow> (Inr (), app1, w1)
              | Some m \<Rightarrow>
                  if 0 < length (database_url_list m) then
                    (case create_secondary_pools settings con_init kw
                            (database_url_list m) [] w1 of
                       (Inl e, w2) \<Rightarrow> (Inl e, app1, w2)
                     | (Inr pl, w2) \<Rightarrow> (Inr (), app1\<lparr>pool_list := Some pl\<rparr>, w2))
                  else (Inr (), app1, w1)))"

text \<open>\<^verbatim>\<open>close_db_connection(app)\<close>: \<^verbatim>\<open>await app.state.pool.close()\<close>.\<close>

definition close_db_connection ::
  "app_state \<Rightarrow> pool_world \<Rightarrow> (error + unit) \<times> app_state \<times> pool_world" where
  "close_db_connection app w =
     (case pool app of
        None \<Rightarrow> (Inl (AttributeError ''pool''), app, w)
      | Some p \<Rightarrow> (Inr (), app, pool_close w p))"

subsection \<open>Notions used in the statements\<close>

text \<open>
  The texts of the files at the head of a list that can be read, up to the first one that
  cannot.
\<close>

fun readable_texts :: "filesystem \<Rightarrow> path list \<Rightarrow> string list" where
  "readable_texts fs [] = []"
| "readable_texts fs (p # ps) =
     (case fs p of None \<Rightarrow> [] | Some t \<Rightarrow> t # readable_texts fs ps)"

text \<open>
  The calls that a run of the factory makes before it turns to the catalog script: the two
  codec registrations, the search-path statement, and the user's files one by one.
\<close>

definition calls_before_catalog :: "connection_factory \<Rightarrow> filesystem \<Rightarrow> conn_call list" where
  "calls_before_catalog self fs =
     [Set_type_codec ''json'' Orjson_dumps Orjson_loads ''pg_catalog'',
      Set_type_codec ''jsonb'' Orjson_dumps Orjson_loads ''pg_catalog'',
      Execute (search_path_sql (join_str '','' (''pg_temp'' # schemas self)))]
     @ map Execute (readable_texts fs (user_sql_files self))"

text \<open>
  Sending a list of calls one after the other and stopping at the first one that the server
  rejects.
\<close>

fun run_calls :: "connection \<Rightarrow> conn_call list \<Rightarrow> (error + unit) \<times> connection" where
  "run_calls conn [] = (Inr (), conn)"
| "run_calls conn (c # cs) =
     (case conn_send conn c of
        (Inl e, conn') \<Rightarrow> (Inl e, conn')
      | (Inr _, conn') \<Rightarrow> run_calls conn' cs)"

text \<open>
  The server accepts every call of a list, each in the state that the calls before it have
  left.
\<close>

fun accepts_all :: "connection \<Rightarrow> conn_call list \<Rightarrow> bool" where
  "accepts_all conn [] = True"
| "accepts_all conn (c # cs) =
     (\<not> refuses conn (executed conn) c
      \<and> accepts_all (conn\<lparr>executed := executed conn @ [c]\<rparr>) cs)"

text \<open>The request that \<^verbatim>\<open>connect_to_db\<close> makes for the pool of one URL.\<close>

definition pool_request_of ::
  "postgres_settings \<Rightarrow> connection_factory \<Rightarrow> (string \<times> string) list \<Rightarrow> string \<Rightarrow> pool_request" where
  "pool_request_of settings con_init kw url =
     \<lparr>dsn = url,
      min_size = db_min_conn_size settings,
      max_size = db_max_conn_size settings,
      max_queries = db_max_queries settings,
      max_inactive_connection_lifetime = db_max_inactive_conn_lifetime settings,
      init = con_init,
      kwargs = kw\<rparr>"

text \<open>The settings in force: \<^verbatim>\<open>if not settings: settings = PostgresSettings()\<close>.\<close>

definition effective_settings :: "postgres_settings \<Rightarrow> postgres_settings option \<Rightarrow> postgres_settings" where
  "effective_settings default_settings settings_arg =
     (case settings_arg of None \<Rightarrow> default_settings | Some s \<Rightarrow> s)"

text \<open>
  Every pool of a list of requests can be created, each in the world that the creations
  before it have left.
\<close>

fun creates_all :: "pool_world \<Rightarrow> pool_request list \<Rightarrow> bool" where
  "creates_all w [] = True"
| "creates_all w (req # reqs) =
     (\<not> create_fails w (pools w) req
      \<and> creates_all (w\<lparr>pools := pools w @ [(req, Pool_open)]\<rparr>) reqs)"

subsection \<open>Sample inputs\<close>

text \<open>A fresh connection to a server that accepts every call.\<close>

definition accepting_conn :: connection where
  "accepting_conn = \<lparr>executed = [], refuses = (\<lambda>done c. False)\<rparr>"

text \<open>A fresh connection to a server that rejects one statement and accepts all others.\<close>

definition rejecting_conn :: "string \<Rightarrow> connection" where
  "rejecting_conn sql = \<lparr>executed = [], refuses = (\<lambda>done c. c = Execute sql)\<rparr>"

definition sample_fs :: filesystem where
  "sample_fs = map_of
     [(''a.sql'', ''CREATE VIEW a AS SELECT 1;''),
      (''b.sql'', ''CREATE VIEW b AS SELECT 2;''),
      (DB_CATALOG_FILE, ''CREATE FUNCTION pg_temp.tipg_catalog() RETURNS int;'')]"

definition sample_factory :: connection_factory where
  "sample_factory = connection_factory_init (Some [''public'']) (Some [''a.sql'', ''b.sql''])"

text \<open>A configuration with one schema whose name contains a comma.\<close>

definition comma_factory :: connection_factory where
  "comma_factory = connection_factory_init (Some [''a,b'']) None"

text \<open>The same configuration with two schemas in place of the one.\<close>

definition two_names_factory :: connection_factory where
  "two_names_factory = connection_factory_init (Some [''a'', ''b'']) None"

text \<open>A configuration with one schema whose name contains a single quote.\<close>

definition quote_factory :: connection_factory where
  "quote_factory = connection_factory_init (Some [ [CHR ''x'', CHR 0x27, CHR ''y''] ]) None"

text \<open>The sample files after \<^verbatim>\<open>a.sql\<close> has been edited on disk.\<close>

definition edited_fs :: filesystem where
  "edited_fs = sample_fs(''a.sql'' \<mapsto> ''CREATE VIEW a AS SELECT 3;'')"

text \<open>
  Pools: an application that has not opened anything, settings, a world in which the server
  of one URL is down, and two lists of secondary URLs.
\<close>

definition empty_app :: app_state where
  "empty_app = \<lparr>pool = None, pool_list = None\<rparr>"

definition sample_settings :: postgres_settings where
  "sample_settings =
     \<lparr>database_url = ''postgresql://primary/db'',
      db_min_conn_size = 1,
      db_max_conn_size = 10,
      db_max_queries = 50000,
      db_max_inactive_conn_lifetime = 300\<rparr>"

definition sample_world :: pool_world where
  "sample_world =
     \<lparr>pools = [], create_fails = (\<lambda>existing req. dsn req = ''postgresql://down/db'')\<rparr>"

definition sample_multi :: multi_postgres_settings where
  "sample_multi = \<lparr>database_url_list = [''postgresql://second/db'', ''postgresql://third/db'']\<rparr>"

definition failing_multi :: multi_postgres_settings where
  "failing_multi = \<lparr>database_url_list = [''postgresql://second/db'', ''postgresql://down/db'']\<rparr>"

text \<open>
  The state after \<^verbatim>\<open>connect_to_db\<close> has opened the primary and the two secondaries of
  \<open>sample_multi\<close>, and the pools after \<^verbatim>\<open>close_db_connection\<close> in that state.
\<close>

definition opened_app :: app_state where
  "opened_app = \<lparr>pool = Some 0, pool_list = Some [1, 2]\<rparr>"

definition opened_world :: pool_world where
  "opened_world = sample_world\<lparr>pools :=
     [(pool_request_of sample_settings (connection_factory_init (Some [''public'']) None) []
         ''postgresql://primary/db'', Pool_open),
      (pool_request_of sample_settings (connection_factory_init (Some [''public'']) None) []
         ''postgresql://second/db'', Pool_open),
      (pool_request_of sample_settings (connection_factory_init (Some [''public'']) None) []
         ''postgresql://third/db'', Pool_open)]\<rparr>"

definition closed_world :: pool_world where
  "closed_world = sample_world\<lparr>pools :=
     [(pool_request_of sample_settings (connection_factory_init (Some [''public'']) None) []
         ''postgresql://primary/db'', Pool_closed),
      (pool_request_of sample_settings (connection_factory_init (Some [''public'']) None) []
         ''postgresql://second/db'', Pool_open),
      (pool_request_of sample_settings (connection_factory_init (Some [''public'']) None) []
         ''postgresql://third/db'', Pool_open)]\<rparr>"

section \<open>The connection factory: what runs, and in which order\<close>

lemma conn_send_Inr:
  "conn_send conn c = (Inr u, conn') \<Longrightarrow>
     executed conn' = executed conn @ [c] \<and> refuses conn' = refuses conn"
  by (auto simp: conn_send_def split: if_splits)

lemma conn_send_Inl:
  "conn_send conn c = (Inl e, conn') \<Longrightarrow>
     conn' = conn \<and> e = PostgresError c \<and> refuses conn (executed conn) c"
  by (auto simp: conn_send_def split: if_splits)

lemma readable_texts_length: "length (readable_texts fs ps) \<le> length ps"
  by (induction ps) (auto split: option.splits)

lemma user_sql_Inr:
  "execute_user_sql_files fs ps conn = (Inr u, conn') \<Longrightarrow>
     executed conn' = executed conn @ map Execute (readable_texts fs ps)
     \<and> map fs ps = map Some (readable_texts fs ps)
     \<and> refuses conn' = refuses conn"
proof (induction ps arbitrary: conn)
  case Nil
  then show ?case by simp
next
  case (Cons p ps)
  from Cons.prems obtain t c1 where t: "fs p = Some t"
    and c1: "execute conn t = (Inr (), c1)"
    and rest: "execute_user_sql_files fs ps c1 = (Inr u, conn')"
    by (auto simp: read_text_def split: option.splits sum.splits prod.splits)
  from c1 have "executed c1 = executed conn @ [Execute t]" "refuses c1 = refuses conn"
    using conn_send_Inr by (auto simp: execute_def)
  with Cons.IH[OF rest] t show ?case by simp
qed

lemma user_sql_Inl:
  "execute_user_sql_files fs ps conn = (Inl e, conn') \<Longrightarrow>
     \<exists>k. k \<le> length (readable_texts fs ps) \<and> k < length ps
       \<and> executed conn' = executed conn @ take k (map Execute (readable_texts fs ps))
       \<and> refuses conn' = refuses conn
       \<and> (k = length (readable_texts fs ps) \<and> e = OSError (ps ! k) \<and> fs (ps ! k) = None
          \<or> k < length (readable_texts fs ps)
             \<and> e = PostgresError (Execute (readable_texts fs ps ! k))
             \<and> refuses conn' (executed conn') (Execute (readable_texts fs ps ! k)))"
proof (induction ps arbitrary: conn)
  case Nil
  then show ?case by simp
next
  case (Cons p ps)
  show ?case
  proof (cases "fs p")
    case None
    with Cons.prems have "e = OSError p" "conn' = conn"
      by (auto simp: read_text_def)
    with None show ?thesis by (intro exI[of _ 0]) simp
  next
    case (Some t)
    obtain r c1 where send: "execute conn t = (r, c1)"
      by (cases "execute conn t") blast
    show ?thesis
    proof (cases r)
      case (Inl e1)
      with send Some Cons.prems have "e = e1" "conn' = c1"
        by (auto simp: read_text_def)
      moreover from send Inl have "c1 = conn" "e1 = PostgresError (Execute t)"
        "refuses conn (executed conn) (Execute t)"
        using conn_send_Inl by (auto simp: execute_def)
      ultimately show ?thesis using Some by (intro exI[of _ 0]) simp
    next
      case (Inr u1)
      with send Some Cons.prems have rest: "execute_user_sql_files fs ps c1 = (Inl e, conn')"
        by (auto simp: read_text_def)
      from send Inr have c1: "executed c1 = executed conn @ [Execute t]"
        "refuses c1 = refuses conn"
        using conn_send_Inr by (auto simp: execute_def)
      from Cons.IH[OF rest] obtain k where k: "k \<le> length (readable_texts fs ps)"
        "k < length ps"
        "executed conn' = executed c1 @ take k (map Execute (readable_texts fs ps))"
        "refuses conn' = refuses c1"
        "k = length (readable_texts fs ps) \<and> e = OSError (ps ! k) \<and> fs (ps ! k) = None
          \<or> k < length (readable_texts fs ps)
             \<and> e = PostgresError (Execute (readable_texts fs ps ! k))
             \<and> refuses conn' (executed conn') (Execute (readable_texts fs ps ! k))"
        by blast
      show ?thesis
        using k c1 Some by (intro exI[of _ "Suc k"]) simp
    qed
  qed
qed

lemma call_Inr:
  assumes "connection_factory_call self fs conn = (Inr u, self', conn')"
  shows "self' = self \<and> refuses conn' = refuses conn
     \<and> map fs (user_sql_files self) = map Some (readable_texts fs (user_sql_files self))
     \<and> (\<exists>sql. fs DB_CATALOG_FILE = Some sql
           \<and> executed conn' = executed conn @ calls_before_catalog self fs @ [Execute sql])"
proof -
  from assms obtain c1 c2 c3 c4 sql where
    s1: "conn_send conn (Set_type_codec ''json'' Orjson_dumps Orjson_loads ''pg_catalog'') = (Inr (), c1)"
    and s2: "conn_send c1 (Set_type_codec ''jsonb'' Orjson_dumps Orjson_loads ''pg_catalog'') = (Inr (), c2)"
    and s3: "conn_send c2 (Execute (search_path_sql (join_str '','' (''pg_temp'' # schemas self)))) = (Inr (), c3)"
    and s4: "execute_user_sql_files fs (user_sql_files self) c3 = (Inr (), c4)"
    and s5: "fs DB_CATALOG_FILE = Some sql"
    and s6: "conn_send c4 (Execute sql) = (Inr (), conn')"
    and s7: "self' = self"
    by (auto simp: connection_factory_call_def Let_def set_type_codec_def execute_def read_text_def
             split: prod.splits sum.splits option.splits)
  note a1 = conn_send_Inr[OF s1] and a2 = conn_send_Inr[OF s2] and a3 = conn_send_Inr[OF s3]
    and a4 = user_sql_Inr[OF s4] and a6 = conn_send_Inr[OF s6]
  show ?thesis
    using a1 a2 a3 a4 a6 s5 s7 by (simp add: calls_before_catalog_def)
qed

lemma call_Inl:
  assumes "connection_factory_call self fs conn = (Inl e, self', conn')"
  shows "self' = self \<and> refuses conn' = refuses conn
     \<and> (\<exists>k\<le>length (calls_before_catalog self fs).
           executed conn' = executed conn @ take k (calls_before_catalog self fs)
         \<and> (k < length (calls_before_catalog self fs)
               \<and> e = PostgresError (calls_before_catalog self fs ! k)
               \<and> refuses conn (executed conn') (calls_before_catalog self fs ! k)
            \<or> k = length (calls_before_catalog self fs)
               \<and> (\<exists>p. e = OSError p \<and> fs p = None)
            \<or> k = length (calls_before_catalog self fs)
               \<and> (\<exists>sql. fs DB_CATALOG_FILE = Some sql \<and> e = PostgresError (Execute sql)
                     \<and> refuses conn (executed conn') (Execute sql))))"
proof -
  let ?json = "Set_type_codec ''json'' Orjson_dumps Orjson_loads ''pg_catalog''"
  let ?jsonb = "Set_type_codec ''jsonb'' Orjson_dumps Orjson_loads ''pg_catalog''"
  let ?sp = "Execute (search_path_sql (join_str '','' (''pg_temp'' # schemas self)))"
  let ?ps = "user_sql_files self"
  let ?cbc = "calls_before_catalog self fs"
  have cbc: "?cbc = [?json, ?jsonb, ?sp] @ map Execute (readable_texts fs ?ps)"
    by (simp add: calls_before_catalog_def)
  have self: "self' = self"
    using assms
    by (auto simp: connection_factory_call_def Let_def split: prod.splits sum.splits)
  from assms consider
      (json) "conn_send conn ?json = (Inl e, conn')"
    | (jsonb) c1 where "conn_send conn ?json = (Inr (), c1)" "conn_send c1 ?jsonb = (Inl e, conn')"
    | (sp) c1 c2 where "conn_send conn ?json = (Inr (), c1)" "conn_send c1 ?jsonb = (Inr (), c2)"
        "conn_send c2 ?sp = (Inl e, conn')"
    | (user) c1 c2 c3 where "conn_send conn ?json = (Inr (), c1)"
        "conn_send c1 ?jsonb = (Inr (), c2)" "conn_send c2 ?sp = (Inr (), c3)"
        "execute_user_sql_files fs ?ps c3 = (Inl e, conn')"
    | (read) c1 c2 c3 where "conn_send conn ?json = (Inr (), c1)"
        "conn_send c1 ?jsonb = (Inr (), c2)" "conn_send c2 ?sp = (Inr (), c3)"
        "execute_user_sql_files fs ?ps c3 = (Inr (), conn')"
        "fs DB_CATALOG_FILE = None" "e = OSError DB_CATALOG_FILE"
    | (catalog) c1 c2 c3 c4 sql where "conn_send conn ?json = (Inr (), c1)"
        "conn_send c1 ?jsonb = (Inr (), c2)" "conn_send c2 ?sp = (Inr (), c3)"
        "execute_user_sql_files fs ?ps c3 = (Inr (), c4)"
        "fs DB_CATALOG_FILE = Some sql" "conn_send c4 (Execute sql) = (Inl e, conn')"
    by (auto simp: connection_factory_call_def Let_def set_type_codec_def execute_def read_text_def
             split: prod.splits sum.splits option.splits)
  then have "refuses conn' = refuses conn \<and> (\<exists>k\<le>length ?cbc.
           executed conn' = executed conn @ take k ?cbc
         \<and> (k < length ?cbc \<and> e = PostgresError (?cbc ! k)
               \<and> refuses conn (executed conn') (?cbc ! k)
            \<or> k = length ?cbc \<and> (\<exists>p. e = OSError p \<and> fs p = None)
            \<or> k = length ?cbc
               \<and> (\<exists>sql. fs DB_CATALOG_FILE = Some sql \<and> e = PostgresError (Execute sql)
                     \<and> refuses conn (executed conn') (Execute sql))))"
  proof cases
    case json
    from conn_send_Inl[OF json] show ?thesis
      by (intro conjI exI[of _ 0]) (simp_all add: cbc)
  next
    case jsonb
    from conn_send_Inr[OF jsonb(1)] conn_send_Inl[OF jsonb(2)] show ?thesis
      by (intro conjI exI[of _ 1]) (simp_all add: cbc)
  next
    case sp
    from conn_send_Inr[OF sp(1)] conn_send_Inr[OF sp(2)] conn_send_Inl[OF sp(3)] show ?thesis
      by (intro conjI exI[of _ 2]) (simp_all add: cbc)
  next
    case user
    note a = conn_send_Inr[OF user(1)] conn_send_Inr[OF user(2)] conn_send_Inr[OF user(3)]
    from user_sql_Inl[OF user(4)] obtain j where j: "j \<le> length (readable_texts fs ?ps)"
      "executed conn' = executed c3 @ take j (map Execute (readable_texts fs ?ps))"
      "refuses conn' = refuses c3"
      "j = length (readable_texts fs ?ps) \<and> e = OSError (?ps ! j) \<and> fs (?ps ! j) = None
          \<or> j < length (readable_texts fs ?ps)
             \<and> e = PostgresError (Execute (readable_texts fs ?ps ! j))
             \<and> refuses conn' (executed conn') (Execute (readable_texts fs ?ps ! j))"
      by blast
    have len: "length ?cbc = Suc (Suc (Suc (length (readable_texts fs ?ps))))"
      by (simp add: cbc)
    have nth: "j < length (readable_texts fs ?ps) \<Longrightarrow>
        ?cbc ! (Suc (Suc (Suc j))) = Execute (readable_texts fs ?ps ! j)"
      by (simp add: cbc)
    have tk: "take (Suc (Suc (Suc j))) ?cbc = [?json, ?jsonb, ?sp] @ take j (map Execute (readable_texts fs ?ps))"
      by (simp add: cbc)
    have ex: "executed conn' = executed conn @ take (Suc (Suc (Suc j))) ?cbc"
      using a j(2) by (simp add: tk)
    have rf: "refuses conn' = refuses conn"
      using a j(3) by simp
    from j(4) show ?thesis
    proof
      assume "j = length (readable_texts fs ?ps) \<and> e = OSError (?ps ! j) \<and> fs (?ps ! j) = None"
      then show ?thesis
        using ex rf len by (intro conjI exI[of _ "Suc (Suc (Suc j))"]) auto
    next
      assume "j < length (readable_texts fs ?ps)
             \<and> e = PostgresError (Execute (readable_texts fs ?ps ! j))
             \<and> refuses conn' (executed conn') (Execute (readable_texts fs ?ps ! j))"
      then show ?thesis
        using ex rf len nth by (intro conjI exI[of _ "Suc (Suc (Suc j))"]) auto
    qed
  next
    case read
    note a = conn_send_Inr[OF read(1)] conn_send_Inr[OF read(2)] conn_send_Inr[OF read(3)]
      user_sql_Inr[OF read(4)]
    show ?thesis
      using a read(5,6) by (intro conjI exI[of _ "length ?cbc"]) (simp_all add: cbc)
  next
    case catalog
    note a = conn_send_Inr[OF catalog(1)] conn_send_Inr[OF catalog(2)]
      conn_send_Inr[OF catalog(3)] user_sql_Inr[OF catalog(4)] conn_send_Inl[OF catalog(6)]
    show ?thesis
      using a catalog(5) by (intro conjI exI[of _ "length ?cbc"]) (simp_all add: cbc)
  qed
  with self show ?thesis by simp
qed

subsection \<open>The run as a list of calls\<close>

lemma run_calls_append:
  "run_calls conn (xs @ ys) =
     (case run_calls conn xs of
        (Inl e, conn') \<Rightarrow> (Inl e, conn')
      | (Inr _, conn') \<Rightarrow> run_calls conn' ys)"
  by (induction xs arbitrary: conn) (auto split: prod.splits sum.splits)

lemma user_sql_as_run_calls:
  "execute_user_sql_files fs ps conn =
     (case run_calls conn (map Execute (readable_texts fs ps)) of
        (Inl e, conn') \<Rightarrow> (Inl e, conn')
      | (Inr _, conn') \<Rightarrow>
          if length (readable_texts fs ps) < length ps
          then (Inl (OSError (ps ! length (readable_texts fs ps))), conn')
          else (Inr (), conn'))"
proof (induction ps arbitrary: conn)
  case Nil
  then show ?case by simp
next
  case (Cons p ps)
  show ?case
  proof (cases "fs p")
    case None
    then show ?thesis by (simp add: read_text_def)
  next
    case (Some t)
    then show ?thesis
      using Cons.IH
      by (auto simp: read_text_def execute_def split: prod.splits sum.splits)
  qed
qed

lemma call_as_run_calls:
  "connection_factory_call self fs conn =
     (case run_calls conn (calls_before_catalog self fs) of
        (Inl e, c) \<Rightarrow> (Inl e, self, c)
      | (Inr _, c) \<Rightarrow>
          if length (readable_texts fs (user_sql_files self)) < length (user_sql_files self)
          then (Inl (OSError (user_sql_files self
                  ! length (readable_texts fs (user_sql_files self)))), self, c)
          else (case fs DB_CATALOG_FILE of
                  None \<Rightarrow> (Inl (OSError DB_CATALOG_FILE), self, c)
                | Some sql \<Rightarrow>
                    (case conn_send c (Execute sql) of
                       (Inl e, c') \<Rightarrow> (Inl e, self, c')
                     | (Inr _, c') \<Rightarrow> (Inr (), self, c'))))"
  by (simp add: connection_factory_call_def calls_before_catalog_def Let_def
      set_type_codec_def execute_def user_sql_as_run_calls read_text_def
      split: prod.splits sum.splits option.splits)


lemma run_calls_accepted:
  "accepts_all conn xs \<Longrightarrow> run_calls conn xs = (Inr (), conn\<lparr>executed := executed conn @ xs\<rparr>)"
proof (induction xs arbitrary: conn)
  case Nil
  then show ?case by simp
next
  case (Cons c cs)
  then show ?case by (simp add: conn_send_def)
qed

subsection \<open>Runs on the sample inputs\<close>

lemma sample_run:
  "connection_factory_call sample_factory sample_fs accepting_conn =
     (Inr (), sample_factory,
      accepting_conn\<lparr>executed :=
        [Set_type_codec ''json'' Orjson_dumps Orjson_loads ''pg_catalog'',
         Set_type_codec ''jsonb'' Orjson_dumps Orjson_loads ''pg_catalog'',
         Execute (search_path_sql ''pg_temp,public''),
         Execute ''CREATE VIEW a AS SELECT 1;'',
         Execute ''CREATE VIEW b AS SELECT 2;'',
         Execute ''CREATE FUNCTION pg_temp.tipg_catalog() RETURNS int;'']\<rparr>)"
  by (simp add: connection_factory_call_def sample_factory_def connection_factory_init_def
      sample_fs_def accepting_conn_def set_type_codec_def execute_def conn_send_def
      read_text_def DB_CATALOG_FILE_def)


lemma edited_run:
  "connection_factory_call sample_factory edited_fs accepting_conn =
     (Inr (), sample_factory,
      accepting_conn\<lparr>executed :=
        [Set_type_codec ''json'' Orjson_dumps Orjson_loads ''pg_catalog'',
         Set_type_codec ''jsonb'' Orjson_dumps Orjson_loads ''pg_catalog'',
         Execute (search_path_sql ''pg_temp,public''),
         Execute ''CREATE VIEW a AS SELECT 3;'',
         Execute ''CREATE VIEW b AS SELECT 2;'',
         Execute ''CREATE FUNCTION pg_temp.tipg_catalog() RETURNS int;'']\<rparr>)"
  by (simp add: connection_factory_call_def sample_factory_def connection_factory_init_def
      edited_fs_def sample_fs_def accepting_conn_def set_type_codec_def execute_def conn_send_def
      read_text_def DB_CATALOG_FILE_def)


lemma other_server_run:
  "connection_factory_call sample_factory sample_fs (rejecting_conn ''DROP SCHEMA public;'') =
     (Inr (), sample_factory,
      rejecting_conn ''DROP SCHEMA public;'' \<lparr>executed :=
        [Set_type_codec ''json'' Orjson_dumps Orjson_loads ''pg_catalog'',
         Set_type_codec ''jsonb'' Orjson_dumps Orjson_loads ''pg_catalog'',
         Execute (search_path_sql ''pg_temp,public''),
         Execute ''CREATE VIEW a AS SELECT 1;'',
         Execute ''CREATE VIEW b AS SELECT 2;'',
         Execute ''CREATE FUNCTION pg_temp.tipg_catalog() RETURNS int;'']\<rparr>)"
  by (simp add: connection_factory_call_def sample_factory_def connection_factory_init_def
      sample_fs_def rejecting_conn_def set_type_codec_def execute_def conn_send_def
      read_text_def DB_CATALOG_FILE_def search_path_sql_def search_path_sql_open_def
      search_path_sql_close_def)

subsection \<open>The catalog script runs last\<close>

text \<open>
  C2. A run of the factory that succeeds has read every user file and the catalog script,
  and the calls it completed on the connection are, in this order: the two codec
  registrations, the search-path statement, one execution per user file in the order of
  \<open>user_sql_files\<close>, and one execution of the catalog script. The catalog script is the
  last call on the connection, after every user file, for any list of schemas and any list
  of files. The run executes the catalog script once: the number of times its text is executed
  is one more than the number of times the calls before it execute that same text.
\<close>

theorem catalog_sql_executed_last:
  assumes "connection_factory_call self fs conn = (Inr (), self', conn')"
  shows "\<exists>user_sqls catalog_sql.
           map fs (user_sql_files self) = map Some user_sqls
         \<and> fs DB_CATALOG_FILE = Some catalog_sql
         \<and> executed conn' = executed conn
              @ [Set_type_codec ''json'' Orjson_dumps Orjson_loads ''pg_catalog'',
                 Set_type_codec ''jsonb'' Orjson_dumps Orjson_loads ''pg_catalog'',
                 Execute (search_path_sql (join_str '','' (''pg_temp'' # schemas self)))]
              @ map Execute user_sqls
              @ [Execute catalog_sql]
         \<and> last (executed conn') = Execute catalog_sql
         \<and> count_list (drop (length (executed conn)) (executed conn')) (Execute catalog_sql)
             = Suc (count_list (calls_before_catalog self fs) (Execute catalog_sql))"
proof -
  from call_Inr[OF assms] obtain sql where
    files: "map fs (user_sql_files self) = map Some (readable_texts fs (user_sql_files self))"
    and cat: "fs DB_CATALOG_FILE = Some sql"
    and ex: "executed conn' = executed conn @ calls_before_catalog self fs @ [Execute sql]"
    by blast
  have "last (executed conn') = Execute sql"
    by (simp add: ex)
  moreover have "count_list (drop (length (executed conn)) (executed conn')) (Execute sql)
             = Suc (count_list (calls_before_catalog self fs) (Execute sql))"
    by (simp add: ex)
  ultimately show ?thesis
    using files cat ex
    by (intro exI[of _ "readable_texts fs (user_sql_files self)"] exI[of _ sql])
       (simp add: calls_before_catalog_def)
qed

theorem catalog_sql_executed_last_witness:
  "connection_factory_call sample_factory sample_fs accepting_conn =
     (Inr (), sample_factory,
      accepting_conn\<lparr>executed :=
        [Set_type_codec ''json'' Orjson_dumps Orjson_loads ''pg_catalog'',
         Set_type_codec ''jsonb'' Orjson_dumps Orjson_loads ''pg_catalog'',
         Execute (search_path_sql ''pg_temp,public''),
         Execute ''CREATE VIEW a AS SELECT 1;'',
         Execute ''CREATE VIEW b AS SELECT 2;'',
         Execute ''CREATE FUNCTION pg_temp.tipg_catalog() RETURNS int;'']\<rparr>)
   \<and> last (executed (snd (snd (connection_factory_call sample_factory sample_fs accepting_conn))))
       = Execute ''CREATE FUNCTION pg_temp.tipg_catalog() RETURNS int;''"
proof -
  note run = sample_run
  from catalog_sql_executed_last[OF run] obtain catalog_sql where
    "sample_fs DB_CATALOG_FILE = Some catalog_sql"
    "last (executed (accepting_conn\<lparr>executed :=
        [Set_type_codec ''json'' Orjson_dumps Orjson_loads ''pg_catalog'',
         Set_type_codec ''jsonb'' Orjson_dumps Orjson_loads ''pg_catalog'',
         Execute (search_path_sql ''pg_temp,public''),
         Execute ''CREATE VIEW a AS SELECT 1;'',
         Execute ''CREATE VIEW b AS SELECT 2;'',
         Execute ''CREATE FUNCTION pg_temp.tipg_catalog() RETURNS int;'']\<rparr>)) = Execute catalog_sql"
    by blast
  then show ?thesis
    using run by (simp add: sample_fs_def DB_CATALOG_FILE_def)
qed

subsection \<open>A failing step ends the run\<close>



subsection \<open>The codecs come first\<close>

text \<open>
  C5. Whatever the outcome, the calls a run completes are an initial part of: the
  registration of a codec for \<open>json\<close>, the registration of a codec for \<open>jsonb\<close>, both in
  schema \<open>pg_catalog\<close> with \<open>orjson.dumps\<close> as encoder and \<open>orjson.loads\<close> as decoder, and
  then executions of SQL only. A run that succeeds completes the whole list, so it registers
  exactly these two codecs, and does so before the search-path statement and before any SQL
  file.
\<close>

theorem json_codecs_registered_first:
  assumes "connection_factory_call self fs conn = (r, self', conn')"
  shows "\<exists>k sqls.
           executed conn' = executed conn
             @ take k ([Set_type_codec ''json'' Orjson_dumps Orjson_loads ''pg_catalog'',
                        Set_type_codec ''jsonb'' Orjson_dumps Orjson_loads ''pg_catalog'']
                       @ map Execute sqls)
         \<and> (r = Inr () \<longrightarrow> k = length sqls + 2 \<and> 2 \<le> length sqls)"
proof (cases r)
  case (Inl e)
  from call_Inl[OF assms[unfolded Inl]] obtain k where
    "executed conn' = executed conn @ take k (calls_before_catalog self fs)"
    by blast
  then show ?thesis
    using Inl
    by (intro exI[of _ k]
        exI[of _ "search_path_sql (join_str '','' (''pg_temp'' # schemas self))
                  # readable_texts fs (user_sql_files self)"])
       (simp add: calls_before_catalog_def)
next
  case (Inr u)
  from call_Inr[OF assms[unfolded Inr]] obtain sql where
    "executed conn' = executed conn @ calls_before_catalog self fs @ [Execute sql]"
    by blast
  then show ?thesis
    by (intro exI[of _ "length (readable_texts fs (user_sql_files self)) + 4"]
        exI[of _ "search_path_sql (join_str '','' (''pg_temp'' # schemas self))
                  # readable_texts fs (user_sql_files self) @ [sql]"])
       (simp add: calls_before_catalog_def)
qed

theorem json_codecs_registered_first_witness:
  "fst (connection_factory_call sample_factory sample_fs accepting_conn) = Inr ()
   \<and> take 2 (executed (snd (snd (connection_factory_call sample_factory sample_fs
                 accepting_conn))))
       = [Set_type_codec ''json'' Orjson_dumps Orjson_loads ''pg_catalog'',
          Set_type_codec ''jsonb'' Orjson_dumps Orjson_loads ''pg_catalog'']
   \<and> drop 2 (executed (snd (snd (connection_factory_call sample_factory sample_fs
                 accepting_conn))))
       = map Execute
           [search_path_sql ''pg_temp,public'',
            ''CREATE VIEW a AS SELECT 1;'',
            ''CREATE VIEW b AS SELECT 2;'',
            ''CREATE FUNCTION pg_temp.tipg_catalog() RETURNS int;'']"
proof -
  let ?conn' = "snd (snd (connection_factory_call sample_factory sample_fs accepting_conn))"
  have ex: "executed ?conn' =
        [Set_type_codec ''json'' Orjson_dumps Orjson_loads ''pg_catalog'',
         Set_type_codec ''jsonb'' Orjson_dumps Orjson_loads ''pg_catalog'',
         Execute (search_path_sql ''pg_temp,public''),
         Execute ''CREATE VIEW a AS SELECT 1;'',
         Execute ''CREATE VIEW b AS SELECT 2;'',
         Execute ''CREATE FUNCTION pg_temp.tipg_catalog() RETURNS int;'']"
    unfolding sample_run by simp
  from json_codecs_registered_first[OF sample_run] obtain k sqls where
    "executed ?conn' = executed accepting_conn
       @ take k ([Set_type_codec ''json'' Orjson_dumps Orjson_loads ''pg_catalog'',
                  Set_type_codec ''jsonb'' Orjson_dumps Orjson_loads ''pg_catalog'']
                 @ map Execute sqls)"
    and "k = length sqls + 2"
    unfolding sample_run by auto
  then have shape: "executed ?conn' =
      [Set_type_codec ''json'' Orjson_dumps Orjson_loads ''pg_catalog'',
       Set_type_codec ''jsonb'' Orjson_dumps Orjson_loads ''pg_catalog''] @ map Execute sqls"
    by (simp add: accepting_conn_def)
  then have "take 2 (executed ?conn') =
      [Set_type_codec ''json'' Orjson_dumps Orjson_loads ''pg_catalog'',
       Set_type_codec ''jsonb'' Orjson_dumps Orjson_loads ''pg_catalog'']"
    by simp
  moreover have "drop 2 (executed ?conn') = map Execute
           [search_path_sql ''pg_temp,public'',
            ''CREATE VIEW a AS SELECT 1;'',
            ''CREATE VIEW b AS SELECT 2;'',
            ''CREATE FUNCTION pg_temp.tipg_catalog() RETURNS int;'']"
    by (simp add: ex)
  moreover have "fst (connection_factory_call sample_factory sample_fs accepting_conn) = Inr ()"
    unfolding sample_run by simp
  ultimately show ?thesis by blast
qed

section \<open>The search-path statement\<close>

text \<open>
  The module fixes the text of the statement and sends it. What the server makes of the
  text is not code of the module and is not modelled: the statements below are about the
  text, about the calls that reach the connection, and about which lists of schemas the text
  can tell apart.
\<close>

subsection \<open>The text and the calls that carry it\<close>

lemma join_str_Cons: "join_str sep (x # xs) = x @ concat (map (\<lambda>y. sep @ y) xs)"
  by (induction xs arbitrary: x) auto

lemma set_in_join_str: "y \<in> set (x # xs) \<Longrightarrow> set y \<subseteq> set (join_str sep (x # xs))"
  by (auto simp: join_str_Cons)

lemma join_str_comma_inside:
  "join_str sep (x # xs @ [a @ sep @ b] @ ys) = join_str sep (x # xs @ [a, b] @ ys)"
  by (simp add: join_str_Cons)




lemma run_calls_extends: "\<exists>rest. executed (snd (run_calls conn xs)) = executed conn @ rest"
proof (induction xs arbitrary: conn)
  case Nil
  then show ?case by simp
next
  case (Cons c cs)
  show ?case
  proof (cases "refuses conn (executed conn) c")
    case True
    then show ?thesis by (simp add: conn_send_def)
  next
    case False
    from Cons.IH[of "conn\<lparr>executed := executed conn @ [c]\<rparr>"] False show ?thesis
      by (auto simp: conn_send_def)
  qed
qed

lemma run_calls_prefix:
  assumes "accepts_all conn p"
  shows "\<exists>rest. executed (snd (run_calls conn (p @ q))) = executed conn @ p @ rest"
proof -
  from run_calls_accepted[OF assms]
  have "run_calls conn (p @ q) = run_calls (conn\<lparr>executed := executed conn @ p\<rparr>) q"
    by (simp add: run_calls_append)
  with run_calls_extends[of "conn\<lparr>executed := executed conn @ p\<rparr>" q] show ?thesis
    by auto
qed

lemma call_extends_run_calls:
  "\<exists>rest. executed (snd (snd (connection_factory_call self fs conn)))
     = executed (snd (run_calls conn (calls_before_catalog self fs))) @ rest"
  by (auto simp: call_as_run_calls conn_send_def split: prod.splits sum.splits option.splits)

lemma call_first_three:
  assumes "accepts_all conn
     [Set_type_codec ''json'' Orjson_dumps Orjson_loads ''pg_catalog'',
      Set_type_codec ''jsonb'' Orjson_dumps Orjson_loads ''pg_catalog'',
      Execute (search_path_sql (join_str '','' (''pg_temp'' # schemas self)))]"
  shows "\<exists>rest. executed (snd (snd (connection_factory_call self fs conn)))
     = executed conn
        @ [Set_type_codec ''json'' Orjson_dumps Orjson_loads ''pg_catalog'',
           Set_type_codec ''jsonb'' Orjson_dumps Orjson_loads ''pg_catalog'',
           Execute (search_path_sql (join_str '','' (''pg_temp'' # schemas self)))]
        @ rest"
proof -
  let ?p = "[Set_type_codec ''json'' Orjson_dumps Orjson_loads ''pg_catalog'',
      Set_type_codec ''jsonb'' Orjson_dumps Orjson_loads ''pg_catalog'',
      Execute (search_path_sql (join_str '','' (''pg_temp'' # schemas self)))]"
  have cbc: "calls_before_catalog self fs = ?p @ map Execute (readable_texts fs (user_sql_files self))"
    by (simp add: calls_before_catalog_def)
  from run_calls_prefix[OF assms, of "map Execute (readable_texts fs (user_sql_files self))"]
  obtain r1 where r1: "executed (snd (run_calls conn (calls_before_catalog self fs)))
      = executed conn @ ?p @ r1"
    unfolding cbc by blast
  from call_extends_run_calls[of self fs conn] obtain r2 where
    "executed (snd (snd (connection_factory_call self fs conn)))
     = executed (snd (run_calls conn (calls_before_catalog self fs))) @ r2"
    by blast
  with r1 show ?thesis by (intro exI[of _ "r1 @ r2"]) simp
qed

lemma call_depends_on_joined_schemas:
  assumes "join_str '','' (''pg_temp'' # schemas f1) = join_str '','' (''pg_temp'' # schemas f2)"
    and "user_sql_files f1 = user_sql_files f2"
  shows "fst (connection_factory_call f1 fs conn) = fst (connection_factory_call f2 fs conn)
       \<and> snd (snd (connection_factory_call f1 fs conn))
           = snd (snd (connection_factory_call f2 fs conn))"
  using assms
  by (simp add: connection_factory_call_def Let_def split: prod.splits sum.splits)

lemma first_quote_is_closing:
  "q \<notin> set v \<Longrightarrow> takeWhile (\<lambda>c. c \<noteq> q) (v @ q # r) = v"
  by (induction v) auto

lemma first_quote_inside:
  "q \<in> set v \<Longrightarrow> length (takeWhile (\<lambda>c. c \<noteq> q) (v @ r)) < length v"
  by (induction v) auto


lemma accepting_conn_accepts: "accepts_all (accepting_conn\<lparr>executed := done\<rparr>) cs"
  by (induction cs arbitrary: "done") (simp_all add: accepting_conn_def)

subsection \<open>The request puts the declared schemas in front of the server's value\<close>




subsection \<open>Different schema lists, one statement\<close>

text \<open>
  C10. The schemas reach the statement joined by commas, each name written as it is. A list
  with the name \<open>a,b\<close> in some place and the list with the two names \<open>a\<close> and \<open>b\<close>
  in that place are different lists with the same statement, character for character. On
  a connection whose server accepts the two codec registrations and that statement, both
  runs send it as their third call, with every name written between the commas as it is,
  and the two runs end with the same outcome and the same connection, for any files:
  nothing that reaches the server tells the two lists apart. A single quote in a name is
  written into the statement as it is. In the statement that a run sends for a list of
  names, look at what follows the single quote that opens the string constant: with a
  single quote in some name the next single quote is a character of a name and comes before
  the end of the joined names, while with no single quote in any name it is the quote with
  which the template closes the constant after the joined names and the comma.
\<close>

theorem search_path_statement_not_injective:
  fixes xs ys names :: "string list" and a b :: string and fl :: "path list"
    and fs :: filesystem and conn :: connection
  defines "merged \<equiv> \<lparr>schemas = xs @ [a @ '','' @ b] @ ys, user_sql_files = fl\<rparr>"
    and "apart \<equiv> \<lparr>schemas = xs @ [a, b] @ ys, user_sql_files = fl\<rparr>"
    and "named \<equiv> \<lparr>schemas = names, user_sql_files = fl\<rparr>"
  defines "stmt \<equiv> search_path_sql (join_str '','' (''pg_temp'' # schemas apart))"
    and "J \<equiv> join_str '','' (''pg_temp'' # schemas named)"
  shows "schemas merged \<noteq> schemas apart
       \<and> search_path_sql (join_str '','' (''pg_temp'' # schemas merged)) = stmt
       \<and> (accepts_all conn
            [Set_type_codec ''json'' Orjson_dumps Orjson_loads ''pg_catalog'',
             Set_type_codec ''jsonb'' Orjson_dumps Orjson_loads ''pg_catalog'',
             Execute stmt]
          \<longrightarrow> (\<exists>rest.
                 executed (snd (snd (connection_factory_call merged fs conn)))
                   = executed conn
                      @ [Set_type_codec ''json'' Orjson_dumps Orjson_loads ''pg_catalog'',
                         Set_type_codec ''jsonb'' Orjson_dumps Orjson_loads ''pg_catalog'',
                         Execute
                           (''\<newline>            SELECT set_config(\<newline>                'search_path',\<newline>                ''
                            @ [CHR 0x27] @ ''pg_temp''
                            @ concat (map (\<lambda>s. '','' @ s) (xs @ [a, b] @ ys))
                            @ '','' @ [CHR 0x27]
                            @ '' || current_setting('search_path', false),\<newline>                false\<newline>                );\<newline>            '')]
                      @ rest
               \<and> executed (snd (snd (connection_factory_call apart fs conn)))
                   = executed conn
                      @ [Set_type_codec ''json'' Orjson_dumps Orjson_loads ''pg_catalog'',
                         Set_type_codec ''jsonb'' Orjson_dumps Orjson_loads ''pg_catalog'',
                         Execute
                           (''\<newline>            SELECT set_config(\<newline>                'search_path',\<newline>                ''
                            @ [CHR 0x27] @ ''pg_temp''
                            @ concat (map (\<lambda>s. '','' @ s) (xs @ [a, b] @ ys))
                            @ '','' @ [CHR 0x27]
                            @ '' || current_setting('search_path', false),\<newline>                false\<newline>                );\<newline>            '')]
                      @ rest))
       \<and> fst (connection_factory_call merged fs conn) = fst (connection_factory_call apart fs conn)
       \<and> snd (snd (connection_factory_call merged fs conn))
           = snd (snd (connection_factory_call apart fs conn))
       \<and> (accepts_all conn
            [Set_type_codec ''json'' Orjson_dumps Orjson_loads ''pg_catalog'',
             Set_type_codec ''jsonb'' Orjson_dumps Orjson_loads ''pg_catalog'',
             Execute (search_path_sql J)]
          \<longrightarrow> (\<exists>rest after_opening_quote.
                 executed (snd (snd (connection_factory_call named fs conn)))
                   = executed conn
                      @ [Set_type_codec ''json'' Orjson_dumps Orjson_loads ''pg_catalog'',
                         Set_type_codec ''jsonb'' Orjson_dumps Orjson_loads ''pg_catalog'',
                         Execute
                           (''\<newline>            SELECT set_config(\<newline>                'search_path',\<newline>                ''
                            @ [CHR 0x27] @ after_opening_quote)]
                      @ rest
               \<and> after_opening_quote
                   = J @ '','' @ [CHR 0x27]
                     @ '' || current_setting('search_path', false),\<newline>                false\<newline>                );\<newline>            ''
               \<and> ((\<exists>s\<in>set names. CHR 0x27 \<in> set s) \<longrightarrow>
                     length (takeWhile (\<lambda>c. c \<noteq> CHR 0x27) after_opening_quote) < length J)
               \<and> ((\<forall>s\<in>set names. CHR 0x27 \<notin> set s) \<longrightarrow>
                     takeWhile (\<lambda>c. c \<noteq> CHR 0x27) after_opening_quote = J @ '','')))"
proof (intro conjI impI)
  have "length (schemas merged) \<noteq> length (schemas apart)"
    by (simp add: merged_def apart_def)
  then show "schemas merged \<noteq> schemas apart" by metis
next
  have same_join: "join_str '','' (''pg_temp'' # schemas merged)
      = join_str '','' (''pg_temp'' # schemas apart)"
    using join_str_comma_inside[of "'',''" "''pg_temp''" xs a b ys]
    by (simp add: merged_def apart_def)
  then show same_stmt: "search_path_sql (join_str '','' (''pg_temp'' # schemas merged)) = stmt"
    by (simp add: stmt_def)
  have literal: "stmt =
            ''\<newline>            SELECT set_config(\<newline>                'search_path',\<newline>                ''
            @ [CHR 0x27] @ ''pg_temp'' @ concat (map (\<lambda>s. '','' @ s) (xs @ [a, b] @ ys))
            @ '','' @ [CHR 0x27]
            @ '' || current_setting('search_path', false),\<newline>                false\<newline>                );\<newline>            ''"
    by (simp add: stmt_def apart_def search_path_sql_def search_path_sql_open_def
        search_path_sql_close_def join_str_Cons)
  have files: "user_sql_files merged = user_sql_files apart"
    by (simp add: merged_def apart_def)
  from call_depends_on_joined_schemas[OF same_join files, of fs conn]
  show "fst (connection_factory_call merged fs conn) = fst (connection_factory_call apart fs conn)"
    and same_conn: "snd (snd (connection_factory_call merged fs conn))
           = snd (snd (connection_factory_call apart fs conn))"
    by simp_all
  {
    assume acc: "accepts_all conn
            [Set_type_codec ''json'' Orjson_dumps Orjson_loads ''pg_catalog'',
             Set_type_codec ''jsonb'' Orjson_dumps Orjson_loads ''pg_catalog'',
             Execute stmt]"
    from call_first_three[of conn apart fs] acc obtain rest where
      "executed (snd (snd (connection_factory_call apart fs conn)))
         = executed conn
            @ [Set_type_codec ''json'' Orjson_dumps Orjson_loads ''pg_catalog'',
               Set_type_codec ''jsonb'' Orjson_dumps Orjson_loads ''pg_catalog'',
               Execute stmt]
            @ rest"
      unfolding stmt_def by blast
    with same_conn have "\<exists>rest.
                 executed (snd (snd (connection_factory_call merged fs conn)))
                   = executed conn
                      @ [Set_type_codec ''json'' Orjson_dumps Orjson_loads ''pg_catalog'',
                         Set_type_codec ''jsonb'' Orjson_dumps Orjson_loads ''pg_catalog'',
                         Execute stmt]
                      @ rest
               \<and> executed (snd (snd (connection_factory_call apart fs conn)))
                   = executed conn
                      @ [Set_type_codec ''json'' Orjson_dumps Orjson_loads ''pg_catalog'',
                         Set_type_codec ''jsonb'' Orjson_dumps Orjson_loads ''pg_catalog'',
                         Execute stmt]
                      @ rest"
      by auto
    then show "\<exists>rest.
                 executed (snd (snd (connection_factory_call merged fs conn)))
                   = executed conn
                      @ [Set_type_codec ''json'' Orjson_dumps Orjson_loads ''pg_catalog'',
                         Set_type_codec ''jsonb'' Orjson_dumps Orjson_loads ''pg_catalog'',
                         Execute
                           (''\<newline>            SELECT set_config(\<newline>                'search_path',\<newline>                ''
                            @ [CHR 0x27] @ ''pg_temp''
                            @ concat (map (\<lambda>s. '','' @ s) (xs @ [a, b] @ ys))
                            @ '','' @ [CHR 0x27]
                            @ '' || current_setting('search_path', false),\<newline>                false\<newline>                );\<newline>            '')]
                      @ rest
               \<and> executed (snd (snd (connection_factory_call apart fs conn)))
                   = executed conn
                      @ [Set_type_codec ''json'' Orjson_dumps Orjson_loads ''pg_catalog'',
                         Set_type_codec ''jsonb'' Orjson_dumps Orjson_loads ''pg_catalog'',
                         Execute
                           (''\<newline>            SELECT set_config(\<newline>                'search_path',\<newline>                ''
                            @ [CHR 0x27] @ ''pg_temp''
                            @ concat (map (\<lambda>s. '','' @ s) (xs @ [a, b] @ ys))
                            @ '','' @ [CHR 0x27]
                            @ '' || current_setting('search_path', false),\<newline>                false\<newline>                );\<newline>            '')]
                      @ rest"
      unfolding literal .
  }
  {
    assume acc: "accepts_all conn
            [Set_type_codec ''json'' Orjson_dumps Orjson_loads ''pg_catalog'',
             Set_type_codec ''jsonb'' Orjson_dumps Orjson_loads ''pg_catalog'',
             Execute (search_path_sql J)]"
    let ?tail = "J @ '','' @ [CHR 0x27]
                     @ '' || current_setting('search_path', false),\<newline>                false\<newline>                );\<newline>            ''"
    have text_of: "search_path_sql J =
            ''\<newline>            SELECT set_config(\<newline>                'search_path',\<newline>                ''
            @ [CHR 0x27] @ ?tail"
      by (simp add: search_path_sql_def search_path_sql_open_def search_path_sql_close_def)
    from call_first_three[of conn named fs] acc obtain rest where
      "executed (snd (snd (connection_factory_call named fs conn)))
         = executed conn
            @ [Set_type_codec ''json'' Orjson_dumps Orjson_loads ''pg_catalog'',
               Set_type_codec ''jsonb'' Orjson_dumps Orjson_loads ''pg_catalog'',
               Execute (search_path_sql J)]
            @ rest"
      unfolding J_def by blast
    then have sent: "executed (snd (snd (connection_factory_call named fs conn)))
         = executed conn
            @ [Set_type_codec ''json'' Orjson_dumps Orjson_loads ''pg_catalog'',
               Set_type_codec ''jsonb'' Orjson_dumps Orjson_loads ''pg_catalog'',
               Execute
                 (''\<newline>            SELECT set_config(\<newline>                'search_path',\<newline>                ''
                  @ [CHR 0x27] @ ?tail)]
            @ rest"
      unfolding text_of .
    have names: "schemas named = names" by (simp add: named_def)
    have inside: "(\<exists>s\<in>set names. CHR 0x27 \<in> set s) \<longrightarrow>
                     length (takeWhile (\<lambda>c. c \<noteq> CHR 0x27) ?tail) < length J"
    proof
      assume "\<exists>s\<in>set names. CHR 0x27 \<in> set s"
      then obtain s where s: "s \<in> set names" "CHR 0x27 \<in> set s" by blast
      from s(1) have "set s \<subseteq> set (join_str '','' (''pg_temp'' # names))"
        by (intro set_in_join_str) simp
      with s(2) have "CHR 0x27 \<in> set J" unfolding J_def names by blast
      then show "length (takeWhile (\<lambda>c. c \<noteq> CHR 0x27) ?tail) < length J"
        by (rule first_quote_inside)
    qed
    have closing: "(\<forall>s\<in>set names. CHR 0x27 \<notin> set s) \<longrightarrow>
                     takeWhile (\<lambda>c. c \<noteq> CHR 0x27) ?tail = J @ '',''"
    proof
      assume h: "\<forall>s\<in>set names. CHR 0x27 \<notin> set s"
      have "set (join_str '','' (''pg_temp'' # names))
          \<subseteq> set ''pg_temp'' \<union> set '','' \<union> (\<Union>y\<in>set names. set y)"
        by (auto simp: join_str_Cons)
      with h have "CHR 0x27 \<notin> set (J @ '','')"
        unfolding J_def names by auto
      from first_quote_is_closing[OF this,
          of "'' || current_setting('search_path', false),\<newline>                false\<newline>                );\<newline>            ''"]
      show "takeWhile (\<lambda>c. c \<noteq> CHR 0x27) ?tail = J @ '',''"
        by simp
    qed
    from sent inside closing
    show "\<exists>rest after_opening_quote.
                 executed (snd (snd (connection_factory_call named fs conn)))
                   = executed conn
                      @ [Set_type_codec ''json'' Orjson_dumps Orjson_loads ''pg_catalog'',
                         Set_type_codec ''jsonb'' Orjson_dumps Orjson_loads ''pg_catalog'',
                         Execute
                           (''\<newline>            SELECT set_config(\<newline>                'search_path',\<newline>                ''
                            @ [CHR 0x27] @ after_opening_quote)]
                      @ rest
               \<and> after_opening_quote
                   = J @ '','' @ [CHR 0x27]
                     @ '' || current_setting('search_path', false),\<newline>                false\<newline>                );\<newline>            ''
               \<and> ((\<exists>s\<in>set names. CHR 0x27 \<in> set s) \<longrightarrow>
                     length (takeWhile (\<lambda>c. c \<noteq> CHR 0x27) after_opening_quote) < length J)
               \<and> ((\<forall>s\<in>set names. CHR 0x27 \<notin> set s) \<longrightarrow>
                     takeWhile (\<lambda>c. c \<noteq> CHR 0x27) after_opening_quote = J @ '','')"
      by blast
  }
qed

theorem search_path_statement_not_injective_witness:
  "schemas comma_factory = [''a,b'']
   \<and> schemas two_names_factory = [''a'', ''b'']
   \<and> schemas comma_factory \<noteq> schemas two_names_factory
   \<and> take 3 (executed (snd (snd (connection_factory_call comma_factory sample_fs accepting_conn))))
       = [Set_type_codec ''json'' Orjson_dumps Orjson_loads ''pg_catalog'',
          Set_type_codec ''jsonb'' Orjson_dumps Orjson_loads ''pg_catalog'',
          Execute
            ''\<newline>            SELECT set_config(\<newline>                'search_path',\<newline>                'pg_temp,a,b,' || current_setting('search_path', false),\<newline>                false\<newline>                );\<newline>            '']
   \<and> take 3 (executed (snd (snd (connection_factory_call two_names_factory sample_fs
                 accepting_conn))))
       = [Set_type_codec ''json'' Orjson_dumps Orjson_loads ''pg_catalog'',
          Set_type_codec ''jsonb'' Orjson_dumps Orjson_loads ''pg_catalog'',
          Execute
            ''\<newline>            SELECT set_config(\<newline>                'search_path',\<newline>                'pg_temp,a,b,' || current_setting('search_path', false),\<newline>                false\<newline>                );\<newline>            '']
   \<and> executed (snd (snd (connection_factory_call comma_factory sample_fs accepting_conn)))
       = executed (snd (snd (connection_factory_call two_names_factory sample_fs accepting_conn)))
   \<and> schemas quote_factory = [ [CHR ''x'', CHR 0x27, CHR ''y''] ]
   \<and> take 3 (executed (snd (snd (connection_factory_call quote_factory sample_fs accepting_conn))))
       = [Set_type_codec ''json'' Orjson_dumps Orjson_loads ''pg_catalog'',
          Set_type_codec ''jsonb'' Orjson_dumps Orjson_loads ''pg_catalog'',
          Execute
            ''\<newline>            SELECT set_config(\<newline>                'search_path',\<newline>                'pg_temp,x'y,' || current_setting('search_path', false),\<newline>                false\<newline>                );\<newline>            '']
   \<and> length (takeWhile (\<lambda>c. c \<noteq> CHR 0x27)
         ''pg_temp,x'y,' || current_setting('search_path', false),\<newline>                false\<newline>                );\<newline>            '')
       < length (''pg_temp,x'' @ [CHR 0x27] @ ''y'')"
proof -
  have merged: "comma_factory = \<lparr>schemas = [] @ [''a'' @ '','' @ ''b''] @ [], user_sql_files = []\<rparr>"
    and apart: "two_names_factory = \<lparr>schemas = [] @ [''a'', ''b''] @ [], user_sql_files = []\<rparr>"
    and named: "quote_factory
        = \<lparr>schemas = [ [CHR ''x'', CHR 0x27, CHR ''y''] ], user_sql_files = []\<rparr>"
    by (simp_all add: comma_factory_def two_names_factory_def quote_factory_def
        connection_factory_init_def)
  note t = search_path_statement_not_injective[where xs = "[]" and a = "''a''" and b = "''b''"
      and ys = "[]" and fl = "[]" and fs = sample_fs and conn = accepting_conn
      and names = "[ [CHR ''x'', CHR 0x27, CHR ''y''] ]", folded merged apart named]
  have sch: "schemas comma_factory = [''a,b'']" "schemas two_names_factory = [''a'', ''b'']"
      "schemas quote_factory = [ [CHR ''x'', CHR 0x27, CHR ''y''] ]"
    by (simp_all add: comma_factory_def two_names_factory_def quote_factory_def
        connection_factory_init_def)
  have acc: "accepts_all accepting_conn
      [Set_type_codec ''json'' Orjson_dumps Orjson_loads ''pg_catalog'',
       Set_type_codec ''jsonb'' Orjson_dumps Orjson_loads ''pg_catalog'',
       Execute (search_path_sql (join_str '','' (''pg_temp'' # schemas two_names_factory)))]"
    using accepting_conn_accepts[of "[]"] by (simp add: accepting_conn_def)
  have acc_quote: "accepts_all accepting_conn
      [Set_type_codec ''json'' Orjson_dumps Orjson_loads ''pg_catalog'',
       Set_type_codec ''jsonb'' Orjson_dumps Orjson_loads ''pg_catalog'',
       Execute (search_path_sql (join_str '','' (''pg_temp'' # schemas quote_factory)))]"
    using accepting_conn_accepts[of "[]"] by (simp add: accepting_conn_def)
  from t have differ: "schemas comma_factory \<noteq> schemas two_names_factory"
    by blast
  from t acc obtain rest where
    "executed (snd (snd (connection_factory_call comma_factory sample_fs accepting_conn)))
       = executed accepting_conn
          @ [Set_type_codec ''json'' Orjson_dumps Orjson_loads ''pg_catalog'',
             Set_type_codec ''jsonb'' Orjson_dumps Orjson_loads ''pg_catalog'',
             Execute
               (''\<newline>            SELECT set_config(\<newline>                'search_path',\<newline>                ''
                @ [CHR 0x27] @ ''pg_temp''
                @ concat (map (\<lambda>s. '','' @ s) ([] @ [''a'', ''b''] @ []))
                @ '','' @ [CHR 0x27]
                @ '' || current_setting('search_path', false),\<newline>                false\<newline>                );\<newline>            '')]
          @ rest"
    "executed (snd (snd (connection_factory_call two_names_factory sample_fs accepting_conn)))
       = executed accepting_conn
          @ [Set_type_codec ''json'' Orjson_dumps Orjson_loads ''pg_catalog'',
             Set_type_codec ''jsonb'' Orjson_dumps Orjson_loads ''pg_catalog'',
             Execute
               (''\<newline>            SELECT set_config(\<newline>                'search_path',\<newline>                ''
                @ [CHR 0x27] @ ''pg_temp''
                @ concat (map (\<lambda>s. '','' @ s) ([] @ [''a'', ''b''] @ []))
                @ '','' @ [CHR 0x27]
                @ '' || current_setting('search_path', false),\<newline>                false\<newline>                );\<newline>            '')]
          @ rest"
    by blast
  then have first: "take 3 (executed (snd (snd (connection_factory_call comma_factory sample_fs
        accepting_conn))))
       = [Set_type_codec ''json'' Orjson_dumps Orjson_loads ''pg_catalog'',
          Set_type_codec ''jsonb'' Orjson_dumps Orjson_loads ''pg_catalog'',
          Execute
            ''\<newline>            SELECT set_config(\<newline>                'search_path',\<newline>                'pg_temp,a,b,' || current_setting('search_path', false),\<newline>                false\<newline>                );\<newline>            '']"
    "take 3 (executed (snd (snd (connection_factory_call two_names_factory sample_fs
        accepting_conn))))
       = [Set_type_codec ''json'' Orjson_dumps Orjson_loads ''pg_catalog'',
          Set_type_codec ''jsonb'' Orjson_dumps Orjson_loads ''pg_catalog'',
          Execute
            ''\<newline>            SELECT set_config(\<newline>                'search_path',\<newline>                'pg_temp,a,b,' || current_setting('search_path', false),\<newline>                false\<newline>                );\<newline>            '']"
    by (simp_all add: accepting_conn_def)
  from t have same: "snd (snd (connection_factory_call comma_factory sample_fs accepting_conn))
       = snd (snd (connection_factory_call two_names_factory sample_fs accepting_conn))"
    by blast
  have has_quote: "\<exists>s\<in>set [ [CHR ''x'', CHR 0x27, CHR ''y''] ]. CHR 0x27 \<in> set s"
    by simp
  from t acc_quote has_quote obtain rest2 tail where q:
    "executed (snd (snd (connection_factory_call quote_factory sample_fs accepting_conn)))
       = executed accepting_conn
          @ [Set_type_codec ''json'' Orjson_dumps Orjson_loads ''pg_catalog'',
             Set_type_codec ''jsonb'' Orjson_dumps Orjson_loads ''pg_catalog'',
             Execute
               (''\<newline>            SELECT set_config(\<newline>                'search_path',\<newline>                ''
                @ [CHR 0x27] @ tail)]
          @ rest2"
    "tail = join_str '','' (''pg_temp'' # schemas quote_factory) @ '','' @ [CHR 0x27]
            @ '' || current_setting('search_path', false),\<newline>                false\<newline>                );\<newline>            ''"
    "length (takeWhile (\<lambda>c. c \<noteq> CHR 0x27) tail)
       < length (join_str '','' (''pg_temp'' # schemas quote_factory))"
    by blast
  have tail: "tail
      = ''pg_temp,x'y,' || current_setting('search_path', false),\<newline>                false\<newline>                );\<newline>            ''"
    unfolding q(2) by (simp add: sch)
  from q(1) have third: "take 3 (executed (snd (snd (connection_factory_call quote_factory
        sample_fs accepting_conn))))
       = [Set_type_codec ''json'' Orjson_dumps Orjson_loads ''pg_catalog'',
          Set_type_codec ''jsonb'' Orjson_dumps Orjson_loads ''pg_catalog'',
          Execute
            ''\<newline>            SELECT set_config(\<newline>                'search_path',\<newline>                'pg_temp,x'y,' || current_setting('search_path', false),\<newline>                false\<newline>                );\<newline>            '']"
    unfolding tail by (simp add: accepting_conn_def)
  from q(3) have inside: "length (takeWhile (\<lambda>c. c \<noteq> CHR 0x27)
         ''pg_temp,x'y,' || current_setting('search_path', false),\<newline>                false\<newline>                );\<newline>            '')
       < length (''pg_temp,x'' @ [CHR 0x27] @ ''y'')"
    unfolding tail by (simp add: sch)
  from sch differ first same third inside show ?thesis by simp
qed


section \<open>Two connections, one factory\<close>

text \<open>
  C8, amended. Run the factory on one connection and then, as it was left, on another, with
  the same files on disk, and let both runs succeed. The factory comes back unchanged from
  each run, so the second run reads the same \<open>schemas\<close> and \<open>user_sql_files\<close> as the
  first. The calls the two runs complete are the same, in the same order: the same codec
  registrations, the same search-path statement, the same SQL texts. Two connections with
  the same calls behind them have the same calls behind them afterwards.
\<close>

theorem same_factory_same_calls:
  assumes first: "connection_factory_call self fs conn1 = (Inr (), self1, conn1')"
    and second: "connection_factory_call self1 fs conn2 = (Inr (), self2, conn2')"
  shows "self1 = self \<and> self2 = self
       \<and> drop (length (executed conn1)) (executed conn1')
           = drop (length (executed conn2)) (executed conn2')
       \<and> (executed conn1 = executed conn2 \<longrightarrow> executed conn1' = executed conn2')"
proof -
  from call_Inr[OF first] obtain sql1 where a: "self1 = self"
    "fs DB_CATALOG_FILE = Some sql1"
    "executed conn1' = executed conn1 @ calls_before_catalog self fs @ [Execute sql1]"
    by blast
  from call_Inr[OF second] a(1) obtain sql2 where b: "self2 = self"
    "fs DB_CATALOG_FILE = Some sql2"
    "executed conn2' = executed conn2 @ calls_before_catalog self fs @ [Execute sql2]"
    by blast
  from a(2) b(2) have "sql1 = sql2" by simp
  with a b show ?thesis by simp
qed

theorem same_factory_same_calls_witness:
  "connection_factory_call sample_factory sample_fs accepting_conn =
     (Inr (), sample_factory,
      accepting_conn\<lparr>executed :=
        [Set_type_codec ''json'' Orjson_dumps Orjson_loads ''pg_catalog'',
         Set_type_codec ''jsonb'' Orjson_dumps Orjson_loads ''pg_catalog'',
         Execute (search_path_sql ''pg_temp,public''),
         Execute ''CREATE VIEW a AS SELECT 1;'',
         Execute ''CREATE VIEW b AS SELECT 2;'',
         Execute ''CREATE FUNCTION pg_temp.tipg_catalog() RETURNS int;'']\<rparr>)
   \<and> connection_factory_call sample_factory sample_fs (rejecting_conn ''DROP SCHEMA public;'') =
     (Inr (), sample_factory,
      rejecting_conn ''DROP SCHEMA public;'' \<lparr>executed :=
        [Set_type_codec ''json'' Orjson_dumps Orjson_loads ''pg_catalog'',
         Set_type_codec ''jsonb'' Orjson_dumps Orjson_loads ''pg_catalog'',
         Execute (search_path_sql ''pg_temp,public''),
         Execute ''CREATE VIEW a AS SELECT 1;'',
         Execute ''CREATE VIEW b AS SELECT 2;'',
         Execute ''CREATE FUNCTION pg_temp.tipg_catalog() RETURNS int;'']\<rparr>)
   \<and> executed (accepting_conn\<lparr>executed :=
        [Set_type_codec ''json'' Orjson_dumps Orjson_loads ''pg_catalog'',
         Set_type_codec ''jsonb'' Orjson_dumps Orjson_loads ''pg_catalog'',
         Execute (search_path_sql ''pg_temp,public''),
         Execute ''CREATE VIEW a AS SELECT 1;'',
         Execute ''CREATE VIEW b AS SELECT 2;'',
         Execute ''CREATE FUNCTION pg_temp.tipg_catalog() RETURNS int;'']\<rparr>)
     = executed (rejecting_conn ''DROP SCHEMA public;'' \<lparr>executed :=
        [Set_type_codec ''json'' Orjson_dumps Orjson_loads ''pg_catalog'',
         Set_type_codec ''jsonb'' Orjson_dumps Orjson_loads ''pg_catalog'',
         Execute (search_path_sql ''pg_temp,public''),
         Execute ''CREATE VIEW a AS SELECT 1;'',
         Execute ''CREATE VIEW b AS SELECT 2;'',
         Execute ''CREATE FUNCTION pg_temp.tipg_catalog() RETURNS int;'']\<rparr>)"
proof -
  have same_start: "executed accepting_conn = executed (rejecting_conn ''DROP SCHEMA public;'')"
    by (simp add: accepting_conn_def rejecting_conn_def)
  from same_factory_same_calls[OF sample_run other_server_run] same_start
  show ?thesis
    using sample_run other_server_run by blast
qed

text \<open>
  C8 as stated, for any two connections, fails. The factory keeps the paths of the user's
  files and reads them anew in every run: after \<^verbatim>\<open>a.sql\<close> has changed on disk, a second
  run of the same factory executes another text than the first did, so the two sessions
  hold different objects. And the search-path statement, the same on every connection, asks
  for the declared schemas followed by \<^verbatim>\<open>current_setting('search_path', false)\<close>, the
  value of the server that the connection is on: the pools of the primary and of the
  secondary URLs share the factory, and their servers need not have the same value.
\<close>

theorem same_factory_different_sessions_counterexample:
  "fst (connection_factory_call sample_factory sample_fs accepting_conn) = Inr ()
   \<and> fst (connection_factory_call
            (fst (snd (connection_factory_call sample_factory sample_fs accepting_conn)))
            edited_fs accepting_conn) = Inr ()
   \<and> executed (snd (snd (connection_factory_call sample_factory sample_fs accepting_conn)))
       \<noteq> executed (snd (snd (connection_factory_call
            (fst (snd (connection_factory_call sample_factory sample_fs accepting_conn)))
            edited_fs accepting_conn)))
   \<and> executed (snd (snd (connection_factory_call sample_factory sample_fs accepting_conn))) ! 3
       = Execute ''CREATE VIEW a AS SELECT 1;''
   \<and> executed (snd (snd (connection_factory_call
            (fst (snd (connection_factory_call sample_factory sample_fs accepting_conn)))
            edited_fs accepting_conn))) ! 3
       = Execute ''CREATE VIEW a AS SELECT 3;''
   \<and> executed (snd (snd (connection_factory_call sample_factory sample_fs accepting_conn))) ! 2
       = Execute (search_path_sql ''pg_temp,public'')
   \<and> search_path_sql ''pg_temp,public'' =
        ''\<newline>            SELECT set_config(\<newline>                'search_path',\<newline>                'pg_temp,public,' || current_setting('search_path', false),\<newline>                false\<newline>                );\<newline>            ''"
proof -
  have literal: "search_path_sql ''pg_temp,public'' =
        ''\<newline>            SELECT set_config(\<newline>                'search_path',\<newline>                'pg_temp,public,' || current_setting('search_path', false),\<newline>                false\<newline>                );\<newline>            ''"
    by (simp add: search_path_sql_def search_path_sql_open_def search_path_sql_close_def)
  show ?thesis
    unfolding sample_run fst_conv snd_conv edited_run
    using literal by (simp add: accepting_conn_def)
qed


section \<open>Opening and closing the pools\<close>

subsection \<open>Creating pools one after the other\<close>

lemma create_pool_b_Inr:
  "create_pool_b w req = (Inr p, w') \<Longrightarrow>
     p = length (pools w) \<and> pools w' = pools w @ [(req, Pool_open)]
     \<and> create_fails w' = create_fails w \<and> \<not> create_fails w (pools w) req"
  by (auto simp: create_pool_b_def split: if_splits)

lemma create_pool_b_Inl:
  "create_pool_b w req = (Inl e, w') \<Longrightarrow>
     w' = w \<and> e = PoolOpenError (dsn req) \<and> create_fails w (pools w) req"
  by (auto simp: create_pool_b_def split: if_splits)

lemma secondary_unfold:
  "create_secondary_pools settings con_init kw (url # rest) acc w =
     (case create_pool_b w (pool_request_of settings con_init kw url) of
        (Inl e, w') \<Rightarrow> (Inl e, w')
      | (Inr p, w') \<Rightarrow> create_secondary_pools settings con_init kw rest (acc @ [p]) w')"
  by (simp add: pool_request_of_def)

lemma secondary_Inr:
  "create_secondary_pools settings con_init kw urls acc w = (Inr pl, w') \<Longrightarrow>
     pools w' = pools w @ map (\<lambda>u. (pool_request_of settings con_init kw u, Pool_open)) urls
     \<and> pl = acc @ [length (pools w) ..< length (pools w) + length urls]
     \<and> create_fails w' = create_fails w"
proof (induction urls arbitrary: acc w)
  case Nil
  then show ?case by simp
next
  case (Cons url rest)
  from Cons.prems obtain p w1 where
    c: "create_pool_b w (pool_request_of settings con_init kw url) = (Inr p, w1)"
    and r: "create_secondary_pools settings con_init kw rest (acc @ [p]) w1 = (Inr pl, w')"
    unfolding secondary_unfold by (auto split: prod.splits sum.splits)
  note a = create_pool_b_Inr[OF c]
  have "[length (pools w) ..< length (pools w) + length (url # rest)]
      = length (pools w) # [Suc (length (pools w)) ..< Suc (length (pools w)) + length rest]"
    by (subst upt_rec) simp
  with Cons.IH[OF r] a show ?case by simp
qed

lemma secondary_Inl:
  "create_secondary_pools settings con_init kw urls acc w = (Inl e, w') \<Longrightarrow>
     \<exists>k<length urls.
       pools w' = pools w
          @ map (\<lambda>u. (pool_request_of settings con_init kw u, Pool_open)) (take k urls)
       \<and> e = PoolOpenError (urls ! k)
       \<and> create_fails w (pools w') (pool_request_of settings con_init kw (urls ! k))
       \<and> create_fails w' = create_fails w"
proof (induction urls arbitrary: acc w)
  case Nil
  then show ?case by simp
next
  case (Cons url rest)
  obtain r w1 where c: "create_pool_b w (pool_request_of settings con_init kw url) = (r, w1)"
    by (cases "create_pool_b w (pool_request_of settings con_init kw url)") blast
  show ?case
  proof (cases r)
    case (Inl e1)
    with c Cons.prems have "e = e1" "w' = w1"
      unfolding secondary_unfold by auto
    with create_pool_b_Inl[OF c[unfolded Inl]] show ?thesis
      by (intro exI[of _ 0]) (simp add: pool_request_of_def)
  next
    case (Inr p)
    with c Cons.prems have
      r: "create_secondary_pools settings con_init kw rest (acc @ [p]) w1 = (Inl e, w')"
      unfolding secondary_unfold by auto
    note a = create_pool_b_Inr[OF c[unfolded Inr]]
    from Cons.IH[OF r] obtain k where k: "k < length rest"
      "pools w' = pools w1
          @ map (\<lambda>u. (pool_request_of settings con_init kw u, Pool_open)) (take k rest)"
      "e = PoolOpenError (rest ! k)"
      "create_fails w1 (pools w') (pool_request_of settings con_init kw (rest ! k))"
      "create_fails w' = create_fails w1"
      by blast
    show ?thesis
      using k a by (intro exI[of _ "Suc k"]) simp
  qed
qed

lemma secondary_rejected:
  assumes "k < length urls"
    and "creates_all w (map (pool_request_of settings con_init kw) (take k urls))"
    and "create_fails w
           (pools w @ map (\<lambda>u. (pool_request_of settings con_init kw u, Pool_open)) (take k urls))
           (pool_request_of settings con_init kw (urls ! k))"
  shows "create_secondary_pools settings con_init kw urls acc w =
     (Inl (PoolOpenError (urls ! k)),
      w\<lparr>pools := pools w
          @ map (\<lambda>u. (pool_request_of settings con_init kw u, Pool_open)) (take k urls)\<rparr>)"
  using assms
proof (induction urls arbitrary: acc w k)
  case Nil
  then show ?case by simp
next
  case (Cons url rest)
  show ?case
  proof (cases k)
    case 0
    with Cons.prems show ?thesis
      unfolding secondary_unfold by (simp add: create_pool_b_def pool_request_of_def)
  next
    case (Suc j)
    let ?w1 = "w\<lparr>pools := pools w @ [(pool_request_of settings con_init kw url, Pool_open)]\<rparr>"
    from Cons.prems Suc have ok: "\<not> create_fails w (pools w) (pool_request_of settings con_init kw url)"
      and j: "j < length rest"
      and rest: "creates_all ?w1 (map (pool_request_of settings con_init kw) (take j rest))"
      and rej: "create_fails ?w1
           (pools ?w1 @ map (\<lambda>u. (pool_request_of settings con_init kw u, Pool_open)) (take j rest))
           (pool_request_of settings con_init kw (rest ! j))"
      by simp_all
    from Cons.IH[OF j rest rej, of "acc @ [length (pools w)]"] ok Suc show ?thesis
      unfolding secondary_unfold by (simp add: create_pool_b_def)
  qed
qed

lemma secondary_created:
  "creates_all w (map (pool_request_of settings con_init kw) urls) \<Longrightarrow>
   create_secondary_pools settings con_init kw urls acc w =
     (Inr (acc @ [length (pools w) ..< length (pools w) + length urls]),
      w\<lparr>pools := pools w
          @ map (\<lambda>u. (pool_request_of settings con_init kw u, Pool_open)) urls\<rparr>)"
proof (induction urls arbitrary: acc w)
  case Nil
  then show ?case by simp
next
  case (Cons url rest)
  let ?w1 = "w\<lparr>pools := pools w @ [(pool_request_of settings con_init kw url, Pool_open)]\<rparr>"
  from Cons.prems have ok: "\<not> create_fails w (pools w) (pool_request_of settings con_init kw url)"
    and rest: "creates_all ?w1 (map (pool_request_of settings con_init kw) rest)"
    by simp_all
  have "[length (pools w) ..< length (pools w) + length (url # rest)]
      = length (pools w) # [Suc (length (pools w)) ..< Suc (length (pools w)) + length rest]"
    by (subst upt_rec) simp
  with Cons.IH[OF rest, of "acc @ [length (pools w)]"] ok show ?case
    unfolding secondary_unfold by (simp add: create_pool_b_def)
qed

lemma connect_unfold:
  "connect_to_db dflt app st_arg multi sch files kw w =
     (case create_pool_b w
             (pool_request_of (effective_settings dflt st_arg) (connection_factory_init sch files) kw
                (database_url (effective_settings dflt st_arg))) of
        (Inl e, w1) \<Rightarrow> (Inl e, app, w1)
      | (Inr p, w1) \<Rightarrow>
          (case multi of
             None \<Rightarrow> (Inr (), app\<lparr>pool := Some p\<rparr>, w1)
           | Some m \<Rightarrow>
               if database_url_list m \<noteq> [] then
                 (case create_secondary_pools (effective_settings dflt st_arg)
                         (connection_factory_init sch files) kw (database_url_list m) [] w1 of
                    (Inl e, w2) \<Rightarrow> (Inl e, app\<lparr>pool := Some p\<rparr>, w2)
                  | (Inr pl, w2) \<Rightarrow> (Inr (), app\<lparr>pool := Some p, pool_list := Some pl\<rparr>, w2))
               else (Inr (), app\<lparr>pool := Some p\<rparr>, w1)))"
  by (simp add: connect_to_db_def effective_settings_def pool_request_of_def Let_def
      split: prod.splits sum.splits option.splits)

lemma connect_cases:
  assumes "connect_to_db dflt app st_arg multi sch files kw w = (r, app', w')"
  defines "st \<equiv> effective_settings dflt st_arg"
    and "ci \<equiv> connection_factory_init sch files"
  obtains
    (primary_fails) e where "create_pool_b w (pool_request_of st ci kw (database_url st)) = (Inl e, w')"
      "r = Inl e" "app' = app"
  | (single) "create_pool_b w (pool_request_of st ci kw (database_url st))
        = (Inr (length (pools w)), w')"
      "multi = None \<or> (\<exists>m. multi = Some m \<and> database_url_list m = [])"
      "r = Inr ()" "app' = app\<lparr>pool := Some (length (pools w))\<rparr>"
  | (secondary_fails) m w1 e where
      "create_pool_b w (pool_request_of st ci kw (database_url st)) = (Inr (length (pools w)), w1)"
      "multi = Some m" "database_url_list m \<noteq> []"
      "create_secondary_pools st ci kw (database_url_list m) [] w1 = (Inl e, w')"
      "r = Inl e" "app' = app\<lparr>pool := Some (length (pools w))\<rparr>"
  | (all_created) m w1 pl where
      "create_pool_b w (pool_request_of st ci kw (database_url st)) = (Inr (length (pools w)), w1)"
      "multi = Some m" "database_url_list m \<noteq> []"
      "create_secondary_pools st ci kw (database_url_list m) [] w1 = (Inr pl, w')"
      "r = Inr ()" "app' = app\<lparr>pool := Some (length (pools w)), pool_list := Some pl\<rparr>"
proof -
  obtain r1 w1 where c: "create_pool_b w (pool_request_of st ci kw (database_url st)) = (r1, w1)"
    by (cases "create_pool_b w (pool_request_of st ci kw (database_url st))") blast
  show thesis
  proof (cases r1)
    case (Inl e)
    with c assms(1) show thesis
      unfolding connect_unfold st_def[symmetric] ci_def[symmetric]
      by (intro primary_fails[of e]) auto
  next
    case (Inr p)
    from create_pool_b_Inr[OF c[unfolded Inr]] have p: "p = length (pools w)" by simp
    show thesis
    proof (cases "multi = None \<or> (\<exists>m. multi = Some m \<and> database_url_list m = [])")
      case True
      with c Inr p assms(1) show thesis
        unfolding connect_unfold st_def[symmetric] ci_def[symmetric]
        by (intro single) auto
    next
      case False
      then obtain m where m: "multi = Some m" "database_url_list m \<noteq> []" by auto
      obtain r2 w2 where s: "create_secondary_pools st ci kw (database_url_list m) [] w1 = (r2, w2)"
        by (cases "create_secondary_pools st ci kw (database_url_list m) [] w1") blast
      show thesis
      proof (cases r2)
        case (Inl e)
        with c Inr p m s assms(1) show thesis
          unfolding connect_unfold st_def[symmetric] ci_def[symmetric]
          by (intro secondary_fails[of w1 m e]) auto
      next
        case r2: (Inr pl)
        with c Inr p m s assms(1) show thesis
          unfolding connect_unfold st_def[symmetric] ci_def[symmetric]
          by (intro all_created[of w1 m pl]) auto
      qed
    qed
  qed
qed

subsection \<open>Runs on the sample inputs\<close>

lemma sample_open_run:
  "connect_to_db sample_settings empty_app None (Some sample_multi) (Some [''public'']) None []
     sample_world = (Inr (), opened_app, opened_world)"
  by (simp add: connect_to_db_def create_pool_b_def sample_world_def sample_settings_def
      sample_multi_def empty_app_def opened_app_def opened_world_def pool_request_of_def Let_def)

lemma failing_open_run:
  "connect_to_db sample_settings empty_app None (Some failing_multi) (Some [''public'']) None []
     sample_world =
     (Inl (PoolOpenError ''postgresql://down/db''),
      \<lparr>pool = Some 0, pool_list = None\<rparr>,
      sample_world\<lparr>pools :=
        [(pool_request_of sample_settings (connection_factory_init (Some [''public'']) None) []
            ''postgresql://primary/db'', Pool_open),
         (pool_request_of sample_settings (connection_factory_init (Some [''public'']) None) []
            ''postgresql://second/db'', Pool_open)]\<rparr>)"
  by (simp add: connect_to_db_def create_pool_b_def sample_world_def sample_settings_def
      failing_multi_def empty_app_def pool_request_of_def Let_def)

lemma reopen_run:
  "connect_to_db sample_settings opened_app None None (Some [''public'']) None [] opened_world =
     (Inr (), \<lparr>pool = Some 3, pool_list = Some [1, 2]\<rparr>,
      opened_world\<lparr>pools := pools opened_world @
        [(pool_request_of sample_settings (connection_factory_init (Some [''public'']) None) []
            ''postgresql://primary/db'', Pool_open)]\<rparr>)"
  by (simp add: connect_to_db_def create_pool_b_def sample_world_def sample_settings_def
      opened_app_def opened_world_def pool_request_of_def Let_def)

lemma sample_close_run:
  "close_db_connection opened_app opened_world = (Inr (), opened_app, closed_world)"
  by (simp add: close_db_connection_def pool_close_def opened_app_def opened_world_def
      closed_world_def)

lemma sample_failing_multi_facts:
  "creates_all sample_world
     (map (pool_request_of (effective_settings sample_settings None)
             (connection_factory_init (Some [''public'']) None) [])
        (database_url (effective_settings sample_settings None)
           # take 1 (database_url_list failing_multi)))"
  "create_fails sample_world
     (pools sample_world
        @ map (\<lambda>u. (pool_request_of (effective_settings sample_settings None)
                       (connection_factory_init (Some [''public'']) None) [] u, Pool_open))
            (database_url (effective_settings sample_settings None)
               # take 1 (database_url_list failing_multi)))
     (pool_request_of (effective_settings sample_settings None)
        (connection_factory_init (Some [''public'']) None) []
        (database_url_list failing_multi ! 1))"
  by (simp_all add: sample_world_def failing_multi_def effective_settings_def sample_settings_def
      pool_request_of_def)

lemma sample_multi_creatable:
  "creates_all sample_world
     (map (pool_request_of (effective_settings sample_settings None)
             (connection_factory_init (Some [''public'']) None) [])
        (database_url (effective_settings sample_settings None)
           # database_url_list sample_multi))"
  by (simp add: sample_world_def sample_multi_def effective_settings_def sample_settings_def
      pool_request_of_def)

subsection \<open>A secondary pool that cannot be created\<close>

text \<open>
  C1, amended. Let \<^verbatim>\<open>connect_to_db\<close> be called with a list of secondary URLs, let the
  primary pool and the pools of the first \<open>k\<close> secondary URLs be created, and let the
  creation of the next one fail. Then the call returns the error of that creation. The
  pools it has created are the primary and those \<open>k\<close> secondaries, no pool for a later
  URL, and all of them are open: the primary pool is not closed. Its handle has been stored
  in \<^verbatim>\<open>app.state.pool\<close> and stays there, and \<^verbatim>\<open>app.state.pool_list\<close> is as it was
  before the call.
\<close>

theorem secondary_failure_leaves_primary_open:
  fixes dflt :: postgres_settings and st_arg :: "postgres_settings option"
    and sch :: "string list option" and files :: "path list option"
    and kw :: "(string \<times> string) list"
  assumes multi: "multi = Some m"
    and k: "k < length (database_url_list m)"
  defines "st \<equiv> effective_settings dflt st_arg"
  defines "req \<equiv> pool_request_of st (connection_factory_init sch files) kw"
  assumes created: "creates_all w (map req (database_url st # take k (database_url_list m)))"
    and fails: "create_fails w
        (pools w @ map (\<lambda>u. (req u, Pool_open)) (database_url st # take k (database_url_list m)))
        (req (database_url_list m ! k))"
  shows "connect_to_db dflt app st_arg multi sch files kw w =
           (Inl (PoolOpenError (database_url_list m ! k)),
            app\<lparr>pool := Some (length (pools w))\<rparr>,
            w\<lparr>pools := pools w
                @ map (\<lambda>u. (req u, Pool_open)) (database_url st # take k (database_url_list m))\<rparr>)
       \<and> (pools w @ map (\<lambda>u. (req u, Pool_open)) (database_url st # take k (database_url_list m)))
           ! length (pools w) = (req (database_url st), Pool_open)
       \<and> pool_list (app\<lparr>pool := Some (length (pools w))\<rparr>) = pool_list app"
proof -
  let ?w1 = "w\<lparr>pools := pools w @ [(req (database_url st), Pool_open)]\<rparr>"
  from created have ok: "\<not> create_fails w (pools w) (req (database_url st))"
    and rest: "creates_all ?w1 (map req (take k (database_url_list m)))"
    by simp_all
  from fails have rej: "create_fails ?w1
      (pools ?w1 @ map (\<lambda>u. (req u, Pool_open)) (take k (database_url_list m)))
      (req (database_url_list m ! k))"
    by simp
  from k have ne: "database_url_list m \<noteq> []" by auto
  have "create_secondary_pools st (connection_factory_init sch files) kw (database_url_list m) [] ?w1
      = (Inl (PoolOpenError (database_url_list m ! k)),
         ?w1\<lparr>pools := pools ?w1
            @ map (\<lambda>u. (req u, Pool_open)) (take k (database_url_list m))\<rparr>)"
    using secondary_rejected[OF k rest[unfolded req_def] rej[unfolded req_def]]
    by (simp add: req_def)
  with ok multi ne show ?thesis
    unfolding connect_unfold st_def[symmetric]
    by (simp add: create_pool_b_def req_def nth_append)
qed

theorem secondary_failure_leaves_primary_open_witness:
  "connect_to_db sample_settings empty_app None (Some failing_multi) (Some [''public'']) None []
     sample_world =
     (Inl (PoolOpenError ''postgresql://down/db''),
      \<lparr>pool = Some 0, pool_list = None\<rparr>,
      sample_world\<lparr>pools :=
        [(pool_request_of sample_settings (connection_factory_init (Some [''public'']) None) []
            ''postgresql://primary/db'', Pool_open),
         (pool_request_of sample_settings (connection_factory_init (Some [''public'']) None) []
            ''postgresql://second/db'', Pool_open)]\<rparr>)"
proof -
  have k: "1 < length (database_url_list failing_multi)"
    by (simp add: failing_multi_def)
  from secondary_failure_leaves_primary_open[OF refl k sample_failing_multi_facts,
      where app = empty_app]
  show ?thesis
    by (simp add: failing_multi_def effective_settings_def sample_settings_def empty_app_def
        sample_world_def)
qed

text \<open>
  C1 as stated fails: with a primary URL and two secondary URLs of which the second is
  down, \<^verbatim>\<open>connect_to_db\<close> returns the error, \<^verbatim>\<open>app.state.pool\<close> holds the handle of
  the primary pool, and that pool is open.
\<close>

theorem secondary_failure_primary_open_counterexample:
  "fst (connect_to_db sample_settings empty_app None (Some failing_multi) (Some [''public''])
          None [] sample_world) = Inl (PoolOpenError ''postgresql://down/db'')
   \<and> pool (fst (snd (connect_to_db sample_settings empty_app None (Some failing_multi)
          (Some [''public'']) None [] sample_world))) = Some 0
   \<and> snd (pools (snd (snd (connect_to_db sample_settings empty_app None (Some failing_multi)
          (Some [''public'']) None [] sample_world))) ! 0) = Pool_open"
  unfolding failing_open_run by simp

subsection \<open>One pool for each secondary URL\<close>

text \<open>
  C6. Given a non-empty list of secondary URLs, let \<open>req u\<close> be the request for URL
  \<open>u\<close> with the minimum size, maximum size, query limit and idle lifetime of the settings,
  the connection factory built from the arguments, and the extra arguments of the call.
  When every pool of the primary URL and the secondary URLs can be created,
  \<^verbatim>\<open>connect_to_db\<close> succeeds: it has created the pool of \<open>req\<close> of the primary URL and
  then, one after the other in the order given, one pool of \<open>req u\<close> for each secondary
  URL \<open>u\<close>, and \<^verbatim>\<open>app.state.pool_list\<close> holds their handles in that order. Whatever the
  outcome, the pools created are those of an initial part of that list, and when the call
  succeeds they are those of the whole list.
\<close>

theorem one_pool_per_secondary_url:
  fixes dflt :: postgres_settings and st_arg :: "postgres_settings option"
    and sch :: "string list option" and files :: "path list option"
    and kw :: "(string \<times> string) list"
  assumes urls: "database_url_list m \<noteq> []"
  defines "st \<equiv> effective_settings dflt st_arg"
  defines "req \<equiv> pool_request_of st (connection_factory_init sch files) kw"
  shows "(creates_all w (map req (database_url st # database_url_list m)) \<longrightarrow>
            connect_to_db dflt app st_arg (Some m) sch files kw w =
              (Inr (),
               app\<lparr>pool := Some (length (pools w)),
                   pool_list := Some [Suc (length (pools w)) ..<
                                        Suc (length (pools w)) + length (database_url_list m)]\<rparr>,
               w\<lparr>pools := pools w
                   @ map (\<lambda>u. (req u, Pool_open)) (database_url st # database_url_list m)\<rparr>))
       \<and> (\<exists>j\<le>Suc (length (database_url_list m)).
            pools (snd (snd (connect_to_db dflt app st_arg (Some m) sch files kw w)))
              = pools w
                 @ map (\<lambda>u. (req u, Pool_open)) (take j (database_url st # database_url_list m)))
       \<and> (fst (connect_to_db dflt app st_arg (Some m) sch files kw w) = Inr () \<longrightarrow>
            pools (snd (snd (connect_to_db dflt app st_arg (Some m) sch files kw w)))
              = pools w
                 @ map (\<lambda>u. (req u, Pool_open)) (database_url st # database_url_list m)
          \<and> pool_list (fst (snd (connect_to_db dflt app st_arg (Some m) sch files kw w)))
              = Some [Suc (length (pools w)) ..<
                        Suc (length (pools w)) + length (database_url_list m)])"
proof (intro conjI impI)
  assume created: "creates_all w (map req (database_url st # database_url_list m))"
  let ?w1 = "w\<lparr>pools := pools w @ [(req (database_url st), Pool_open)]\<rparr>"
  from created have ok: "\<not> create_fails w (pools w) (req (database_url st))"
    and rest: "creates_all ?w1 (map req (database_url_list m))"
    by simp_all
  from secondary_created[OF rest[unfolded req_def], of "[]"] ok urls
  show "connect_to_db dflt app st_arg (Some m) sch files kw w =
              (Inr (),
               app\<lparr>pool := Some (length (pools w)),
                   pool_list := Some [Suc (length (pools w)) ..<
                                        Suc (length (pools w)) + length (database_url_list m)]\<rparr>,
               w\<lparr>pools := pools w
                   @ map (\<lambda>u. (req u, Pool_open)) (database_url st # database_url_list m)\<rparr>)"
    unfolding connect_unfold st_def[symmetric]
    by (simp add: create_pool_b_def req_def)
next
  obtain r app' w' where run: "connect_to_db dflt app st_arg (Some m) sch files kw w = (r, app', w')"
    by (cases "connect_to_db dflt app st_arg (Some m) sch files kw w") auto
  have "\<exists>j\<le>Suc (length (database_url_list m)).
      pools w' = pools w
         @ map (\<lambda>u. (req u, Pool_open)) (take j (database_url st # database_url_list m))"
    using run
  proof (cases rule: connect_cases)
    case (primary_fails e1)
    from create_pool_b_Inl[OF primary_fails(1)] show ?thesis
      by (intro exI[of _ 0]) simp
  next
    case single
    with urls show ?thesis by simp
  next
    case (secondary_fails m' w1 e1)
    note a = create_pool_b_Inr[OF secondary_fails(1)]
    from secondary_fails(2) have m: "m' = m" by simp
    from secondary_Inl[OF secondary_fails(4)] obtain k where "k < length (database_url_list m)"
      "pools w' = pools w1
         @ map (\<lambda>u. (pool_request_of (effective_settings dflt st_arg)
                        (connection_factory_init sch files) kw u, Pool_open))
             (take k (database_url_list m))"
      unfolding m by blast
    then show ?thesis
      using a by (intro exI[of _ "Suc k"]) (simp add: req_def st_def)
  next
    case (all_created m' w1 pl)
    note a = create_pool_b_Inr[OF all_created(1)]
    from all_created(2) have m: "m' = m" by simp
    note b = secondary_Inr[OF all_created(4), unfolded m]
    show ?thesis
      using a b by (intro exI[of _ "Suc (length (database_url_list m))"]) (simp add: req_def st_def)
  qed
  then show "\<exists>j\<le>Suc (length (database_url_list m)).
            pools (snd (snd (connect_to_db dflt app st_arg (Some m) sch files kw w)))
              = pools w
                 @ map (\<lambda>u. (req u, Pool_open)) (take j (database_url st # database_url_list m))"
    by (simp add: run)
next
  assume ok: "fst (connect_to_db dflt app st_arg (Some m) sch files kw w) = Inr ()"
  obtain r app' w' where run: "connect_to_db dflt app st_arg (Some m) sch files kw w = (r, app', w')"
    by (cases "connect_to_db dflt app st_arg (Some m) sch files kw w") auto
  with ok have r: "r = Inr ()" by simp
  have "pools w' = pools w
           @ map (\<lambda>u. (req u, Pool_open)) (database_url st # database_url_list m)
      \<and> pool_list app' = Some [Suc (length (pools w)) ..<
                        Suc (length (pools w)) + length (database_url_list m)]"
    using run
  proof (cases rule: connect_cases)
    case (primary_fails e1)
    with r show ?thesis by simp
  next
    case single
    with urls show ?thesis by simp
  next
    case (secondary_fails m' w1 e1)
    with r show ?thesis by simp
  next
    case (all_created m' w1 pl)
    note a = create_pool_b_Inr[OF all_created(1)]
    from all_created(2) have m: "m' = m" by simp
    note b = secondary_Inr[OF all_created(4), unfolded m]
    show ?thesis
      using a b all_created(6) by (simp add: req_def st_def)
  qed
  then show "pools (snd (snd (connect_to_db dflt app st_arg (Some m) sch files kw w)))
              = pools w
                 @ map (\<lambda>u. (req u, Pool_open)) (database_url st # database_url_list m)"
    and "pool_list (fst (snd (connect_to_db dflt app st_arg (Some m) sch files kw w)))
              = Some [Suc (length (pools w)) ..<
                        Suc (length (pools w)) + length (database_url_list m)]"
    by (simp_all add: run)
qed

theorem one_pool_per_secondary_url_witness:
  "connect_to_db sample_settings empty_app None (Some sample_multi) (Some [''public'']) None []
     sample_world = (Inr (), opened_app, opened_world)"
proof -
  have urls: "database_url_list sample_multi \<noteq> []"
    by (simp add: sample_multi_def)
  from one_pool_per_secondary_url[OF urls, where w = sample_world and dflt = sample_settings
      and st_arg = None and sch = "Some [''public'']" and files = None and kw = "[]"
      and app = empty_app] sample_multi_creatable
  show ?thesis
    by (simp add: sample_multi_def effective_settings_def sample_settings_def empty_app_def
        sample_world_def opened_app_def opened_world_def)
qed

subsection \<open>Closing\<close>

text \<open>
  C7. \<^verbatim>\<open>close_db_connection\<close> leaves \<^verbatim>\<open>app.state\<close> as it is, \<^verbatim>\<open>pool_list\<close>
  included. No pool is added or removed, and every pool other than the one
  \<^verbatim>\<open>app.state.pool\<close> refers to keeps its request and its status: the secondary pools are
  not closed. The pool that \<^verbatim>\<open>app.state.pool\<close> refers to is closed. When
  \<^verbatim>\<open>app.state.pool\<close> was never assigned the call raises and changes nothing.
\<close>

theorem close_closes_primary_only:
  assumes "close_db_connection app w = (r, app', w')"
  shows "app' = app
       \<and> create_fails w' = create_fails w
       \<and> length (pools w') = length (pools w)
       \<and> (\<forall>h<length (pools w). pool app \<noteq> Some h \<longrightarrow> pools w' ! h = pools w ! h)
       \<and> (\<forall>p. pool app = Some p \<longrightarrow>
             r = Inr () \<and> (p < length (pools w) \<longrightarrow> pools w' ! p = (fst (pools w ! p), Pool_closed)))
       \<and> (pool app = None \<longrightarrow> r = Inl (AttributeError ''pool'') \<and> w' = w)"
  using assms
  by (auto simp: close_db_connection_def pool_close_def nth_list_update split: option.splits)

theorem close_closes_primary_only_witness:
  "close_db_connection opened_app opened_world = (Inr (), opened_app, closed_world)
   \<and> pool opened_app = Some 0
   \<and> pool_list opened_app = Some [1, 2]
   \<and> pools closed_world ! 0 = (fst (pools opened_world ! 0), Pool_closed)
   \<and> pools closed_world ! 1 = pools opened_world ! 1
   \<and> pools closed_world ! 2 = pools opened_world ! 2
   \<and> snd (pools opened_world ! 1) = Pool_open
   \<and> snd (pools opened_world ! 2) = Pool_open"
proof -
  have len: "length (pools opened_world) = 3" and p: "pool opened_app = Some 0"
    and pl: "pool_list opened_app = Some [1, 2]"
    by (simp_all add: opened_world_def opened_app_def)
  note t = close_closes_primary_only[OF sample_close_run]
  from t have others:
    "\<forall>h<length (pools opened_world). pool opened_app \<noteq> Some h
        \<longrightarrow> pools closed_world ! h = pools opened_world ! h"
    by blast
  from t have primary:
    "\<forall>p. pool opened_app = Some p \<longrightarrow> Inr () = (Inr () :: error + unit)
        \<and> (p < length (pools opened_world)
            \<longrightarrow> pools closed_world ! p = (fst (pools opened_world ! p), Pool_closed))"
    by blast
  have "pools closed_world ! 1 = pools opened_world ! 1"
    using others[rule_format, of 1] len p by simp
  moreover have "pools closed_world ! 2 = pools opened_world ! 2"
    using others[rule_format, of 2] len p by simp
  moreover have "pools closed_world ! 0 = (fst (pools opened_world ! 0), Pool_closed)"
    using primary[rule_format, of 0] len p by simp
  moreover have "snd (pools opened_world ! 1) = Pool_open" "snd (pools opened_world ! 2) = Pool_open"
    by (simp_all add: opened_world_def)
  ultimately show ?thesis
    using sample_close_run p pl by simp
qed

subsection \<open>Opening without secondary URLs\<close>

text \<open>
  C9. When \<^verbatim>\<open>connect_to_db\<close> is called without multi-database settings, or with an empty
  list of URLs in them, \<^verbatim>\<open>app.state.pool_list\<close> is what it was before the call, and
  the pools that existed before the call are unchanged, none of them closed; a call that
  succeeds has added the primary pool and nothing else, and a call that fails has changed
  nothing at all. Whatever the multi-database settings are, once the primary pool has been
  created \<^verbatim>\<open>app.state.pool\<close> holds the handle of the new pool in place of what it held.
\<close>

theorem no_multi_keeps_pool_list:
  assumes run: "connect_to_db dflt app st_arg multi sch files kw w = (r, app', w')"
  shows "((multi = None \<or> (\<exists>m. multi = Some m \<and> database_url_list m = [])) \<longrightarrow>
            pool_list app' = pool_list app
          \<and> take (length (pools w)) (pools w') = pools w
          \<and> (r = Inr () \<longrightarrow>
                pool app' = Some (length (pools w))
              \<and> pools w' = pools w
                  @ [(pool_request_of (effective_settings dflt st_arg)
                        (connection_factory_init sch files) kw
                        (database_url (effective_settings dflt st_arg)), Pool_open)])
          \<and> (r \<noteq> Inr () \<longrightarrow> app' = app \<and> w' = w))
       \<and> (\<not> create_fails w (pools w)
              (pool_request_of (effective_settings dflt st_arg) (connection_factory_init sch files)
                 kw (database_url (effective_settings dflt st_arg))) \<longrightarrow>
            pool app' = Some (length (pools w)))"
  using run
proof (cases rule: connect_cases)
  case (primary_fails e1)
  from create_pool_b_Inl[OF primary_fails(1)] primary_fails(2,3) show ?thesis by simp
next
  case single
  from create_pool_b_Inr[OF single(1)] single(3,4) show ?thesis by simp
next
  case (secondary_fails m w1 e1)
  then show ?thesis by simp
next
  case (all_created m w1 pl)
  then show ?thesis by simp
qed

theorem no_multi_keeps_pool_list_witness:
  "connect_to_db sample_settings opened_app None None (Some [''public'']) None [] opened_world =
     (Inr (), \<lparr>pool = Some 3, pool_list = Some [1, 2]\<rparr>,
      opened_world\<lparr>pools := pools opened_world @
        [(pool_request_of sample_settings (connection_factory_init (Some [''public'']) None) []
            ''postgresql://primary/db'', Pool_open)]\<rparr>)
   \<and> pool_list \<lparr>pool = Some 3, pool_list = Some [1, 2]\<rparr> = pool_list opened_app
   \<and> pool \<lparr>pool = Some 3, pool_list = Some [1, 2]\<rparr> = Some (length (pools opened_world))
   \<and> pool opened_app = Some 0"
proof -
  from no_multi_keeps_pool_list[OF reopen_run]
  have "pool_list \<lparr>pool = Some 3, pool_list = Some [1, 2]\<rparr> = pool_list opened_app"
    "pool \<lparr>pool = Some 3, pool_list = Some [1, 2]\<rparr> = Some (length (pools opened_world))"
    by simp_all
  then show ?thesis
    using reopen_run by (simp add: opened_app_def)
qed

end
